theory Spec2Isabelle
  imports Main
begin

section \<open>Data model\<close>

text \<open>
  The structs of \<^verbatim>\<open>internal/model/user.go\<close>. Go's \<^verbatim>\<open>int\<close> and \<^verbatim>\<open>int64\<close> are
  integers, a \<^verbatim>\<open>*int\<close> is an optional integer and a \<^verbatim>\<open>time.Time\<close> is a number of
  clock ticks, with \<open>0\<close> for the zero time. Several structs have a field of the same
  name; the fields of the request structs are written with the struct's name
  (\<open>CreateUserRequest.Username\<close>), the plain names are those of \<open>User\<close>.
\<close>

type_synonym time = int

record CreateUserRequest =
  Username :: string
  Email :: string
  Password :: string

record UpdateUserRequest =
  Username :: string
  Email :: string
  Status :: "int option"

record UserQueryParams =
  Username :: string
  Email :: string
  Status :: "int option"
  Page :: int
  PageSize :: int

record BaseModel =
  ID :: int
  CreatedAt :: time
  UpdatedAt :: time

record User = BaseModel +
  Username :: string
  Email :: string
  Password :: string
  Status :: int

definition UserStatusInactive :: int where
  "UserStatusInactive = 0"

definition UserStatusActive :: int where
  "UserStatusActive = 1"

definition UserStatusBanned :: int where
  "UserStatusBanned = 2"

section \<open>Errors\<close>

text \<open>
  Go's error values. The four sentinels of the service (\<^verbatim>\<open>errors.New\<close>) and the two of
  the database libraries are constants; \<open>Errorf m\<close> is \<^verbatim>\<open>fmt.Errorf(m)\<close> with no
  \<^verbatim>\<open>%w\<close>, a new error that wraps nothing; \<open>Wrapf m e\<close> is
  \<^verbatim>\<open>fmt.Errorf(m + ": %w", e)\<close>. The message texts of the source are Chinese; they
  are given here in English.
\<close>

datatype error =
    ErrUserNotFound
  | ErrUserAlreadyExists
  | ErrEmailAlreadyUsed
  | ErrInvalidPassword
  | ErrRecordNotFound
  | ErrNoRows
  | UniqueViolation string
  | DriverError string
  | BcryptError string
  | Errorf string
  | Wrapf string error

type_synonym 'a result = "error + 'a"

text \<open>\<^verbatim>\<open>errors.Is\<close>: the error itself or one it wraps, along the chain of \<^verbatim>\<open>%w\<close>.\<close>

fun errors_Is :: "error \<Rightarrow> error \<Rightarrow> bool" where
  "errors_Is (Wrapf m e) target = (Wrapf m e = target \<or> errors_Is e target)"
| "errors_Is e target = (e = target)"

section \<open>The users table\<close>

text \<open>
  The table of the migration: \<^verbatim>\<open>id BIGSERIAL PRIMARY KEY\<close>, \<^verbatim>\<open>username\<close> and
  \<^verbatim>\<open>email\<close> \<^verbatim>\<open>UNIQUE\<close>, \<^verbatim>\<open>updated_at\<close> set to \<^verbatim>\<open>NOW()\<close> by every insert and
  update. A world is the table (its rows in insertion order), the next value of the id
  sequence, the clock, and a schedule: what happens at each of the coming statements.
  A statement takes the first event of the schedule: it proceeds, or it fails with a driver
  error (a lost connection, a timeout) and does nothing, or the insert of a concurrent
  request commits just before it. After the end of the schedule every statement proceeds.
  Column widths and the range of \<^verbatim>\<open>SMALLINT\<close> are not modelled.
\<close>

datatype event = Proceed | Fail string | Concurrent_Insert string string

record world =
  users :: "User list"
  nextval :: int
  now :: time
  sched :: "event list"

definition insert_row ::
  "world \<Rightarrow> int option \<Rightarrow> time \<Rightarrow> time \<Rightarrow> string \<Rightarrow> string \<Rightarrow> string \<Rightarrow> int \<Rightarrow> User result \<times> world" where
  "insert_row w idopt ca ua un em pw st =
     (let i = (case idopt of None \<Rightarrow> nextval w | Some j \<Rightarrow> j);
          w' = (case idopt of None \<Rightarrow> w\<lparr>nextval := nextval w + 1\<rparr> | Some j \<Rightarrow> w);
          r = \<lparr>ID = i, CreatedAt = ca, UpdatedAt = ua,
               Username = un, Email = em, Password = pw, Status = st\<rparr>
      in if filter (\<lambda>x. ID x = i) (users w) \<noteq> [] then
           (Inl (UniqueViolation ''users_pkey''), w')
         else if filter (\<lambda>x. User.Username x = un) (users w) \<noteq> [] then
           (Inl (UniqueViolation ''users_username_key''), w')
         else if filter (\<lambda>x. User.Email x = em) (users w) \<noteq> [] then
           (Inl (UniqueViolation ''users_email_key''), w')
         else (Inr r, w'\<lparr>users := users w @ [r]\<rparr>))"

definition begin_stmt :: "world \<Rightarrow> error option \<times> world" where
  "begin_stmt w =
     (case sched w of
        [] \<Rightarrow> (None, w)
      | Proceed # es \<Rightarrow> (None, w\<lparr>sched := es\<rparr>)
      | Fail m # es \<Rightarrow> (Some (DriverError m), w\<lparr>sched := es\<rparr>)
      | Concurrent_Insert un em # es \<Rightarrow>
          (None, (snd (insert_row w None (now w) (now w) un em [] UserStatusActive))\<lparr>sched := es\<rparr>))"

definition stmt :: "world \<Rightarrow> (world \<Rightarrow> 'a result \<times> world) \<Rightarrow> 'a result \<times> world" where
  "stmt w run = (case begin_stmt w of (Some e, w') \<Rightarrow> (Inl e, w') | (None, w') \<Rightarrow> run w')"

text \<open>\<^verbatim>\<open>INSERT INTO users ... RETURNING\<close>: the new row.\<close>

definition sql_insert ::
  "world \<Rightarrow> int option \<Rightarrow> time \<Rightarrow> time \<Rightarrow> string \<Rightarrow> string \<Rightarrow> string \<Rightarrow> int \<Rightarrow> User result \<times> world" where
  "sql_insert w idopt ca ua un em pw st =
     stmt w (\<lambda>w'. insert_row w' idopt ca ua un em pw st)"

text \<open>\<^verbatim>\<open>SELECT ... FROM users WHERE\<close>: the rows, in the order of the table.\<close>

definition sql_select :: "world \<Rightarrow> (User \<Rightarrow> bool) \<Rightarrow> User list result \<times> world" where
  "sql_select w P = stmt w (\<lambda>w'. (Inr (filter P (users w')), w'))"

text \<open>\<^verbatim>\<open>SELECT COUNT(*) FROM users WHERE\<close>.\<close>

definition sql_count :: "world \<Rightarrow> (User \<Rightarrow> bool) \<Rightarrow> int result \<times> world" where
  "sql_count w P = stmt w (\<lambda>w'. (Inr (int (length (filter P (users w')))), w'))"

text \<open>
  \<^verbatim>\<open>SELECT ... WHERE ... ORDER BY id DESC LIMIT l OFFSET o\<close>, each of the two clauses
  present or not. PostgreSQL refuses a negative limit or offset.
\<close>

definition order_by_id_desc :: "User list \<Rightarrow> User list" where
  "order_by_id_desc rs = rev (sort_key ID rs)"

definition sql_select_page ::
  "world \<Rightarrow> (User \<Rightarrow> bool) \<Rightarrow> int option \<Rightarrow> int option \<Rightarrow> User list result \<times> world" where
  "sql_select_page w P lim off =
     stmt w (\<lambda>w'.
       let rs = order_by_id_desc (filter P (users w')) in
       if (case off of Some k \<Rightarrow> k < 0 | None \<Rightarrow> False) then
         (Inl (DriverError ''OFFSET must not be negative''), w')
       else if (case lim of Some l \<Rightarrow> l < 0 | None \<Rightarrow> False) then
         (Inl (DriverError ''LIMIT must not be negative''), w')
       else
         (Inr ((case lim of Some l \<Rightarrow> take (nat l) | None \<Rightarrow> (\<lambda>xs. xs))
                ((case off of Some k \<Rightarrow> drop (nat k) | None \<Rightarrow> (\<lambda>xs. xs)) rs)), w'))"

text \<open>
  \<^verbatim>\<open>UPDATE users SET ... WHERE id = i\<close>: the rows with this id become \<open>f\<close> of
  themselves, unless a new username or email is the one of a row with another id. The
  result is the updated rows.
\<close>

definition sql_update :: "world \<Rightarrow> int \<Rightarrow> (User \<Rightarrow> User) \<Rightarrow> User list result \<times> world" where
  "sql_update w i f =
     stmt w (\<lambda>w'.
       let new = map f (filter (\<lambda>x. ID x = i) (users w'));
           others = filter (\<lambda>x. ID x \<noteq> i) (users w')
       in if filter (\<lambda>x. User.Username x \<in> set (map User.Username new)) others \<noteq> [] then
            (Inl (UniqueViolation ''users_username_key''), w')
          else if filter (\<lambda>x. User.Email x \<in> set (map User.Email new)) others \<noteq> [] then
            (Inl (UniqueViolation ''users_email_key''), w')
          else (Inr new, w'\<lparr>users := map (\<lambda>x. if ID x = i then f x else x) (users w')\<rparr>))"

text \<open>\<^verbatim>\<open>DELETE FROM users WHERE id = i\<close>: the number of rows deleted.\<close>

definition sql_delete :: "world \<Rightarrow> int \<Rightarrow> int result \<times> world" where
  "sql_delete w i =
     stmt w (\<lambda>w'.
       (Inr (int (length (filter (\<lambda>x. ID x = i) (users w')))),
        w'\<lparr>users := filter (\<lambda>x. ID x \<noteq> i) (users w')\<rparr>))"

text \<open>
  \<^verbatim>\<open>LIKE\<close> of PostgreSQL: \<^verbatim>\<open>%\<close> stands for any characters, \<^verbatim>\<open>_\<close> for any one
  character, and a backslash takes the next character of the pattern as itself. (A pattern
  that ends in a lone backslash is an error in PostgreSQL; the patterns of \<open>List\<close> end
  in \<^verbatim>\<open>%\<close>.)
\<close>

fun like :: "string \<Rightarrow> string \<Rightarrow> bool" where
  "like [] s = (s = [])"
| "like (p # ps) [] = (p = CHR ''%'' \<and> like ps [])"
| "like (p # ps) (c # t) =
     (if p = CHR ''%'' then like ps (c # t) \<or> like (p # ps) t
      else if p = CHR ''_'' then like ps t
      else if p = CHR 0x5C then (case ps of [] \<Rightarrow> False | q # qs \<Rightarrow> c = q \<and> like qs t)
      else c = p \<and> like ps t)"

text \<open>Go's \<^verbatim>\<open>int\<close> has 64 bits: a product wraps around.\<close>

definition wrap_int :: "int \<Rightarrow> int" where
  "wrap_int x = (x + 2 ^ 63) mod 2 ^ 64 - 2 ^ 63"

section \<open>The operations of GORM\<close>

text \<open>
  What the repository of \<^verbatim>\<open>part_001\<close> calls on \<^verbatim>\<open>*gorm.DB\<close>, each one statement
  on the table. \<open>Create\<close> leaves a zero id to the sequence and fills zero timestamps with
  the time; \<open>First\<close> is the row of least id, or \<open>ErrRecordNotFound\<close>; \<open>Find\<close> (here
  with \<^verbatim>\<open>Order("id DESC")\<close>) writes \<^verbatim>\<open>LIMIT\<close> for a limit from 0 and \<^verbatim>\<open>OFFSET\<close>
  for an offset above 0; \<open>Save\<close> of a struct with an id updates every column of the row
  of that id, with the time as \<^verbatim>\<open>updated_at\<close>, and creates the row for a zero id; the
  repository reads \<^verbatim>\<open>RowsAffected\<close> as the number of rows the statement changed.
\<close>

definition gorm_Create :: "world \<Rightarrow> User \<Rightarrow> User result \<times> world" where
  "gorm_Create w user =
     sql_insert w (if ID user = 0 then None else Some (ID user))
       (if CreatedAt user = 0 then now w else CreatedAt user)
       (if UpdatedAt user = 0 then now w else UpdatedAt user)
       (User.Username user) (User.Email user) (User.Password user) (User.Status user)"

definition gorm_First :: "world \<Rightarrow> (User \<Rightarrow> bool) \<Rightarrow> User result \<times> world" where
  "gorm_First w P =
     (case sql_select w P of
        (Inl e, w') \<Rightarrow> (Inl e, w')
      | (Inr rs, w') \<Rightarrow>
          (case sort_key ID rs of
             [] \<Rightarrow> (Inl ErrRecordNotFound, w')
           | r # _ \<Rightarrow> (Inr r, w')))"

definition gorm_Count :: "world \<Rightarrow> (User \<Rightarrow> bool) \<Rightarrow> int result \<times> world" where
  "gorm_Count w P = sql_count w P"

definition gorm_Find :: "world \<Rightarrow> (User \<Rightarrow> bool) \<Rightarrow> int \<Rightarrow> int \<Rightarrow> User list result \<times> world" where
  "gorm_Find w P limit offset =
     sql_select_page w P (if 0 \<le> limit then Some limit else None)
       (if 0 < offset then Some offset else None)"

definition gorm_Save :: "world \<Rightarrow> User \<Rightarrow> (User \<times> int) result \<times> world" where
  "gorm_Save w user =
     (if ID user = 0 then
        (case gorm_Create w user of
           (Inl e, w') \<Rightarrow> (Inl e, w')
         | (Inr r, w') \<Rightarrow> (Inr (r, 1), w'))
      else
        (case sql_update w (ID user) (\<lambda>x. user\<lparr>UpdatedAt := now w\<rparr>) of
           (Inl e, w') \<Rightarrow> (Inl e, w')
         | (Inr rs, w') \<Rightarrow> (Inr (user\<lparr>UpdatedAt := now w\<rparr>, int (length rs)), w')))"

definition gorm_Delete :: "world \<Rightarrow> int \<Rightarrow> int result \<times> world" where
  "gorm_Delete w i = sql_delete w i"

section \<open>The repository\<close>

text \<open>The \<^verbatim>\<open>WHERE\<close> clause that \<open>List\<close> builds from the query parameters.\<close>

definition where_clause :: "UserQueryParams \<Rightarrow> User \<Rightarrow> bool" where
  "where_clause params u =
     ((UserQueryParams.Username params = [] \<or>
         like (''%'' @ UserQueryParams.Username params @ ''%'') (User.Username u)) \<and>
      (UserQueryParams.Email params = [] \<or>
         like (''%'' @ UserQueryParams.Email params @ ''%'') (User.Email u)) \<and>
      (case UserQueryParams.Status params of None \<Rightarrow> True | Some st \<Rightarrow> User.Status u = st))"

subsection \<open>On GORM (\<^verbatim>\<open>part_001\<close>)\<close>

text \<open>
  The methods in the order of the file. A method that takes a \<^verbatim>\<open>*model.User\<close> and
  writes to it (\<open>Create\<close>, \<open>Update\<close>) returns the struct as it is after a call
  without error. \<open>first_or_not_found\<close> is what \<open>GetByID\<close>, \<open>GetByUsername\<close> and
  \<open>GetByEmail\<close> all do with the result of \<open>First\<close> (lines 37 to 43, 50 to 56, 63 to
  69).
\<close>

definition UserRepository_Create_gorm :: "world \<Rightarrow> User \<Rightarrow> User result \<times> world" where
  "UserRepository_Create_gorm w user =
     (case gorm_Create w user of
        (Inl e, w') \<Rightarrow> (Inl (Wrapf ''create user failed'' e), w')
      | (Inr user', w') \<Rightarrow> (Inr user', w'))"

definition first_or_not_found :: "User result \<times> world \<Rightarrow> User result \<times> world" where
  "first_or_not_found res =
     (case res of
        (Inl e, w') \<Rightarrow>
          if errors_Is e ErrRecordNotFound then (Inl (Errorf ''user not found''), w')
          else (Inl (Wrapf ''get user failed'' e), w')
      | (Inr user, w') \<Rightarrow> (Inr user, w'))"

definition UserRepository_GetByID_gorm :: "world \<Rightarrow> int \<Rightarrow> User result \<times> world" where
  "UserRepository_GetByID_gorm w i = first_or_not_found (gorm_First w (\<lambda>x. ID x = i))"

definition UserRepository_GetByUsername_gorm :: "world \<Rightarrow> string \<Rightarrow> User result \<times> world" where
  "UserRepository_GetByUsername_gorm w username =
     first_or_not_found (gorm_First w (\<lambda>x. User.Username x = username))"

definition UserRepository_GetByEmail_gorm :: "world \<Rightarrow> string \<Rightarrow> User result \<times> world" where
  "UserRepository_GetByEmail_gorm w email =
     first_or_not_found (gorm_First w (\<lambda>x. User.Email x = email))"

definition UserRepository_List_gorm ::
  "world \<Rightarrow> UserQueryParams \<Rightarrow> (User list \<times> int) result \<times> world" where
  "UserRepository_List_gorm w params =
     (case gorm_Count w (where_clause params) of
        (Inl e, w1) \<Rightarrow> (Inl (Wrapf ''count users failed'' e), w1)
      | (Inr total', w1) \<Rightarrow>
          (let page = (if Page params < 1 then 1 else Page params);
               pageSize = (if PageSize params < 1 then 10 else PageSize params);
               offset = wrap_int ((page - 1) * pageSize)
           in case gorm_Find w1 (where_clause params) pageSize offset of
                (Inl e, w2) \<Rightarrow> (Inl (Wrapf ''list users failed'' e), w2)
              | (Inr found, w2) \<Rightarrow> (Inr (found, total'), w2)))"

definition UserRepository_Update_gorm :: "world \<Rightarrow> User \<Rightarrow> User result \<times> world" where
  "UserRepository_Update_gorm w user =
     (case gorm_Save w user of
        (Inl e, w') \<Rightarrow> (Inl (Wrapf ''update user failed'' e), w')
      | (Inr (user', rowsAffected), w') \<Rightarrow>
          if rowsAffected = 0 then (Inl (Errorf ''user not found''), w')
          else (Inr user', w'))"

definition UserRepository_Delete_gorm :: "world \<Rightarrow> int \<Rightarrow> unit result \<times> world" where
  "UserRepository_Delete_gorm w i =
     (case gorm_Delete w i of
        (Inl e, w') \<Rightarrow> (Inl (Wrapf ''delete user failed'' e), w')
      | (Inr rowsAffected, w') \<Rightarrow>
          if rowsAffected = 0 then (Inl (Errorf ''user not found''), w')
          else (Inr (), w'))"

definition UserRepository_ExistsByUsername_gorm :: "world \<Rightarrow> string \<Rightarrow> bool result \<times> world" where
  "UserRepository_ExistsByUsername_gorm w username =
     (case gorm_Count w (\<lambda>x. User.Username x = username) of
        (Inl e, w') \<Rightarrow> (Inl (Wrapf ''check username failed'' e), w')
      | (Inr count, w') \<Rightarrow> (Inr (count > 0), w'))"

definition UserRepository_ExistsByEmail_gorm :: "world \<Rightarrow> string \<Rightarrow> bool result \<times> world" where
  "UserRepository_ExistsByEmail_gorm w email =
     (case gorm_Count w (\<lambda>x. User.Email x = email) of
        (Inl e, w') \<Rightarrow> (Inl (Wrapf ''check email failed'' e), w')
      | (Inr count, w') \<Rightarrow> (Inr (count > 0), w'))"

subsection \<open>On pgx (\<^verbatim>\<open>part_000\<close>)\<close>

text \<open>
  \<^verbatim>\<open>QueryRow(...).Scan\<close> is the first row of the answer, or \<open>ErrNoRows\<close>; the scan
  of a row of the table into a \<open>User\<close> does not fail. \<open>scan_user\<close> is what
  \<open>GetByID\<close>, \<open>GetByUsername\<close> and \<open>GetByEmail\<close> all do with it (lines 81 to 88,
  99 to 106, 117 to 124). \<open>Delete\<close> returns the error of \<^verbatim>\<open>Exec\<close> and nothing else.
\<close>

definition QueryRow_Scan :: "'a list result \<times> world \<Rightarrow> 'a result \<times> world" where
  "QueryRow_Scan res =
     (case res of
        (Inl e, w') \<Rightarrow> (Inl e, w')
      | (Inr [], w') \<Rightarrow> (Inl ErrNoRows, w')
      | (Inr (r # _), w') \<Rightarrow> (Inr r, w'))"

definition UserRepository_Create_pgx :: "world \<Rightarrow> User \<Rightarrow> User result \<times> world" where
  "UserRepository_Create_pgx w user =
     (case sql_insert w None (now w) (now w)
             (User.Username user) (User.Email user) (User.Password user) (User.Status user) of
        (Inl e, w') \<Rightarrow> (Inl e, w')
      | (Inr r, w') \<Rightarrow>
          (Inr (user\<lparr>ID := ID r, CreatedAt := CreatedAt r, UpdatedAt := UpdatedAt r\<rparr>), w'))"

definition scan_user :: "User list result \<times> world \<Rightarrow> User result \<times> world" where
  "scan_user res =
     (case QueryRow_Scan res of
        (Inl e, w') \<Rightarrow> (Inl (Wrapf ''get user failed'' e), w')
      | (Inr user, w') \<Rightarrow> (Inr user, w'))"

definition UserRepository_GetByID_pgx :: "world \<Rightarrow> int \<Rightarrow> User result \<times> world" where
  "UserRepository_GetByID_pgx w i = scan_user (sql_select w (\<lambda>x. ID x = i))"

definition UserRepository_GetByUsername_pgx :: "world \<Rightarrow> string \<Rightarrow> User result \<times> world" where
  "UserRepository_GetByUsername_pgx w username =
     scan_user (sql_select w (\<lambda>x. User.Username x = username))"

definition UserRepository_GetByEmail_pgx :: "world \<Rightarrow> string \<Rightarrow> User result \<times> world" where
  "UserRepository_GetByEmail_pgx w email =
     scan_user (sql_select w (\<lambda>x. User.Email x = email))"

definition UserRepository_List_pgx ::
  "world \<Rightarrow> UserQueryParams \<Rightarrow> (User list \<times> int) result \<times> world" where
  "UserRepository_List_pgx w params =
     (case sql_count w (where_clause params) of
        (Inl e, w1) \<Rightarrow> (Inl (Wrapf ''count users failed'' e), w1)
      | (Inr total', w1) \<Rightarrow>
          (let page = (if Page params < 1 then 1 else Page params);
               pageSize = (if PageSize params < 1 then 10 else PageSize params);
               offset = wrap_int ((page - 1) * pageSize)
           in case sql_select_page w1 (where_clause params) (Some pageSize) (Some offset) of
                (Inl e, w2) \<Rightarrow> (Inl (Wrapf ''list users failed'' e), w2)
              | (Inr found, w2) \<Rightarrow> (Inr (found, total'), w2)))"

definition UserRepository_Update_pgx :: "world \<Rightarrow> User \<Rightarrow> User result \<times> world" where
  "UserRepository_Update_pgx w user =
     (case QueryRow_Scan
             (sql_update w (ID user)
                (\<lambda>x. x\<lparr>User.Username := User.Username user, User.Email := User.Email user,
                        User.Status := User.Status user, UpdatedAt := now w\<rparr>)) of
        (Inl e, w') \<Rightarrow> (Inl e, w')
      | (Inr r, w') \<Rightarrow> (Inr (user\<lparr>UpdatedAt := UpdatedAt r\<rparr>), w'))"

definition UserRepository_Delete_pgx :: "world \<Rightarrow> int \<Rightarrow> unit result \<times> world" where
  "UserRepository_Delete_pgx w i =
     (case sql_delete w i of
        (Inl e, w') \<Rightarrow> (Inl e, w')
      | (Inr rowsAffected, w') \<Rightarrow> (Inr (), w'))"

definition UserRepository_ExistsByUsername_pgx :: "world \<Rightarrow> string \<Rightarrow> bool result \<times> world" where
  "UserRepository_ExistsByUsername_pgx w username =
     (case sql_select w (\<lambda>x. User.Username x = username) of
        (Inl e, w') \<Rightarrow> (Inl e, w')
      | (Inr rs, w') \<Rightarrow> (Inr (rs \<noteq> []), w'))"

definition UserRepository_ExistsByEmail_pgx :: "world \<Rightarrow> string \<Rightarrow> bool result \<times> world" where
  "UserRepository_ExistsByEmail_pgx w email =
     (case sql_select w (\<lambda>x. User.Email x = email) of
        (Inl e, w') \<Rightarrow> (Inl e, w')
      | (Inr rs, w') \<Rightarrow> (Inr (rs \<noteq> []), w'))"

subsection \<open>The repository of the service\<close>

text \<open>
  The service holds a \<^verbatim>\<open>*repository.UserRepository\<close>; the source has the two above
  under this one name.
\<close>

datatype store = GORM | PGX

definition UserRepository_Create :: "store \<Rightarrow> world \<Rightarrow> User \<Rightarrow> User result \<times> world" where
  "UserRepository_Create s =
     (case s of GORM \<Rightarrow> UserRepository_Create_gorm | PGX \<Rightarrow> UserRepository_Create_pgx)"

definition UserRepository_GetByID :: "store \<Rightarrow> world \<Rightarrow> int \<Rightarrow> User result \<times> world" where
  "UserRepository_GetByID s =
     (case s of GORM \<Rightarrow> UserRepository_GetByID_gorm | PGX \<Rightarrow> UserRepository_GetByID_pgx)"

definition UserRepository_GetByUsername :: "store \<Rightarrow> world \<Rightarrow> string \<Rightarrow> User result \<times> world" where
  "UserRepository_GetByUsername s =
     (case s of GORM \<Rightarrow> UserRepository_GetByUsername_gorm
              | PGX \<Rightarrow> UserRepository_GetByUsername_pgx)"

definition UserRepository_GetByEmail :: "store \<Rightarrow> world \<Rightarrow> string \<Rightarrow> User result \<times> world" where
  "UserRepository_GetByEmail s =
     (case s of GORM \<Rightarrow> UserRepository_GetByEmail_gorm | PGX \<Rightarrow> UserRepository_GetByEmail_pgx)"

definition UserRepository_List ::
  "store \<Rightarrow> world \<Rightarrow> UserQueryParams \<Rightarrow> (User list \<times> int) result \<times> world" where
  "UserRepository_List s =
     (case s of GORM \<Rightarrow> UserRepository_List_gorm | PGX \<Rightarrow> UserRepository_List_pgx)"

definition UserRepository_Update :: "store \<Rightarrow> world \<Rightarrow> User \<Rightarrow> User result \<times> world" where
  "UserRepository_Update s =
     (case s of GORM \<Rightarrow> UserRepository_Update_gorm | PGX \<Rightarrow> UserRepository_Update_pgx)"

definition UserRepository_Delete :: "store \<Rightarrow> world \<Rightarrow> int \<Rightarrow> unit result \<times> world" where
  "UserRepository_Delete s =
     (case s of GORM \<Rightarrow> UserRepository_Delete_gorm | PGX \<Rightarrow> UserRepository_Delete_pgx)"

definition UserRepository_ExistsByUsername ::
  "store \<Rightarrow> world \<Rightarrow> string \<Rightarrow> bool result \<times> world" where
  "UserRepository_ExistsByUsername s =
     (case s of GORM \<Rightarrow> UserRepository_ExistsByUsername_gorm
              | PGX \<Rightarrow> UserRepository_ExistsByUsername_pgx)"

definition UserRepository_ExistsByEmail ::
  "store \<Rightarrow> world \<Rightarrow> string \<Rightarrow> bool result \<times> world" where
  "UserRepository_ExistsByEmail s =
     (case s of GORM \<Rightarrow> UserRepository_ExistsByEmail_gorm
              | PGX \<Rightarrow> UserRepository_ExistsByEmail_pgx)"

section \<open>The service (\<^verbatim>\<open>part_003\<close>)\<close>

text \<open>
  \<^verbatim>\<open>bcrypt.GenerateFromPassword\<close> is a parameter of \<open>Create\<close>: the password and the
  cost to the hash or an error. \<^verbatim>\<open>bcrypt.DefaultCost\<close> is 10. \<open>Create\<close> is lines 34
  to 71, \<open>GetByID\<close> lines 74 to 80, \<open>List\<close> lines 83 to 85 and \<open>Delete\<close> lines
  125 to 133.
\<close>

definition bcrypt_DefaultCost :: int where
  "bcrypt_DefaultCost = 10"

definition UserService_Create ::
  "store \<Rightarrow> (string \<Rightarrow> int \<Rightarrow> string result) \<Rightarrow> world \<Rightarrow> CreateUserRequest \<Rightarrow> User result \<times> world" where
  "UserService_Create s GenerateFromPassword w req =
     (case UserRepository_ExistsByUsername s w (CreateUserRequest.Username req) of
        (Inl err, w1) \<Rightarrow> (Inl (Wrapf ''check username failed'' err), w1)
      | (Inr found, w1) \<Rightarrow>
          if found then (Inl ErrUserAlreadyExists, w1)
          else
            (case UserRepository_ExistsByEmail s w1 (CreateUserRequest.Email req) of
               (Inl err, w2) \<Rightarrow> (Inl (Wrapf ''check email failed'' err), w2)
             | (Inr found, w2) \<Rightarrow>
                 if found then (Inl ErrEmailAlreadyUsed, w2)
                 else
                   (case GenerateFromPassword (CreateUserRequest.Password req) bcrypt_DefaultCost of
                      Inl err \<Rightarrow> (Inl (Wrapf ''hash password failed'' err), w2)
                    | Inr hashedPassword \<Rightarrow>
                        (let user = \<lparr>ID = 0, CreatedAt = 0, UpdatedAt = 0,
                                      Username = CreateUserRequest.Username req,
                                      Email = CreateUserRequest.Email req,
                                      Password = hashedPassword,
                                      Status = UserStatusActive\<rparr>
                         in case UserRepository_Create s w2 user of
                              (Inl err, w3) \<Rightarrow> (Inl (Wrapf ''create user failed'' err), w3)
                            | (Inr user', w3) \<Rightarrow> (Inr user', w3)))))"

definition UserService_GetByID :: "store \<Rightarrow> world \<Rightarrow> int \<Rightarrow> User result \<times> world" where
  "UserService_GetByID s w i =
     (case UserRepository_GetByID s w i of
        (Inl err, w') \<Rightarrow> (Inl ErrUserNotFound, w')
      | (Inr user, w') \<Rightarrow> (Inr user, w'))"

definition UserService_List ::
  "store \<Rightarrow> world \<Rightarrow> UserQueryParams \<Rightarrow> (User list \<times> int) result \<times> world" where
  "UserService_List s w params = UserRepository_List s w params"

text \<open>
  \<open>Update\<close> in four parts, in the order of the source: the fetch (lines 89 to 92)
  is in \<open>UserService_Update\<close>, which goes on with the block of the username (lines 95
  to 102), that with the block of the email (lines 104 to 111), that with the status and
  the save (lines 113 to 121).
\<close>

definition Update_save :: "store \<Rightarrow> world \<Rightarrow> UpdateUserRequest \<Rightarrow> User \<Rightarrow> User result \<times> world" where
  "Update_save s w req user =
     (let user = (case UpdateUserRequest.Status req of
                    Some st \<Rightarrow> user\<lparr>User.Status := st\<rparr>
                  | None \<Rightarrow> user)
      in case UserRepository_Update s w user of
           (Inl err, w') \<Rightarrow> (Inl (Wrapf ''update user failed'' err), w')
         | (Inr user', w') \<Rightarrow> (Inr user', w'))"

definition Update_email ::
  "store \<Rightarrow> world \<Rightarrow> int \<Rightarrow> UpdateUserRequest \<Rightarrow> User \<Rightarrow> User result \<times> world" where
  "Update_email s w i req user =
     (if UpdateUserRequest.Email req \<noteq> [] then
        (case UserRepository_GetByEmail s w (UpdateUserRequest.Email req) of
           (Inr existingUser, w') \<Rightarrow>
             if ID existingUser \<noteq> i then (Inl ErrEmailAlreadyUsed, w')
             else Update_save s w' req (user\<lparr>User.Email := UpdateUserRequest.Email req\<rparr>)
         | (Inl err, w') \<Rightarrow>
             Update_save s w' req (user\<lparr>User.Email := UpdateUserRequest.Email req\<rparr>))
      else Update_save s w req user)"

definition Update_username ::
  "store \<Rightarrow> world \<Rightarrow> int \<Rightarrow> UpdateUserRequest \<Rightarrow> User \<Rightarrow> User result \<times> world" where
  "Update_username s w i req user =
     (if UpdateUserRequest.Username req \<noteq> [] then
        (case UserRepository_GetByUsername s w (UpdateUserRequest.Username req) of
           (Inr existingUser, w') \<Rightarrow>
             if ID existingUser \<noteq> i then (Inl ErrUserAlreadyExists, w')
             else Update_email s w' i req
                    (user\<lparr>User.Username := UpdateUserRequest.Username req\<rparr>)
         | (Inl err, w') \<Rightarrow>
             Update_email s w' i req (user\<lparr>User.Username := UpdateUserRequest.Username req\<rparr>))
      else Update_email s w i req user)"

definition UserService_Update ::
  "store \<Rightarrow> world \<Rightarrow> int \<Rightarrow> UpdateUserRequest \<Rightarrow> User result \<times> world" where
  "UserService_Update s w i req =
     (case UserRepository_GetByID s w i of
        (Inl err, w') \<Rightarrow> (Inl ErrUserNotFound, w')
      | (Inr user, w') \<Rightarrow> Update_username s w' i req user)"

definition UserService_Delete :: "store \<Rightarrow> world \<Rightarrow> int \<Rightarrow> unit result \<times> world" where
  "UserService_Delete s w i =
     (case UserRepository_GetByID s w i of
        (Inl err, w') \<Rightarrow> (Inl ErrUserNotFound, w')
      | (Inr user, w') \<Rightarrow> UserRepository_Delete s w' i)"

section \<open>Responses (\<^verbatim>\<open>part_002\<close>)\<close>

text \<open>
  What \<^verbatim>\<open>encoding/json\<close> writes. A \<open>User\<close> is written field by field under the
  names of its \<^verbatim>\<open>json\<close> tags, the fields of the embedded \<open>BaseModel\<close> first; the tag
  of \<open>Password\<close> is \<^verbatim>\<open>"-"\<close>, which leaves the field out. \<open>Data\<close> of a
  \<open>Response\<close> is \<^verbatim>\<open>omitempty\<close>: a nil value is left out.
\<close>

datatype json =
    JInt int
  | JString string
  | JTime time
  | JArray "json list"
  | JObject "(string \<times> json) list"

definition User_json :: "User \<Rightarrow> json" where
  "User_json u =
     JObject [(''id'', JInt (ID u)),
              (''created_at'', JTime (CreatedAt u)),
              (''updated_at'', JTime (UpdatedAt u)),
              (''username'', JString (User.Username u)),
              (''email'', JString (User.Email u)),
              (''status'', JInt (User.Status u))]"

record Response =
  Code :: int
  Message :: string
  Data :: "json option"

type_synonym http = "nat \<times> Response"

definition CodeSuccess :: int where
  "CodeSuccess = 0"

definition CodeBadRequest :: int where
  "CodeBadRequest = 400"

definition CodeNotFound :: int where
  "CodeNotFound = 404"

definition CodeServerError :: int where
  "CodeServerError = 500"

definition Success :: "json option \<Rightarrow> http" where
  "Success data = (200, \<lparr>Code = CodeSuccess, Message = ''success'', Data = data\<rparr>)"

definition PageData_json :: "User list \<Rightarrow> int \<Rightarrow> int \<Rightarrow> int \<Rightarrow> json" where
  "PageData_json list total' page pageSize =
     JObject [(''list'', JArray (map User_json list)),
              (''total'', JInt total'),
              (''page'', JInt page),
              (''page_size'', JInt pageSize)]"

definition SuccessPage :: "User list \<Rightarrow> int \<Rightarrow> int \<Rightarrow> int \<Rightarrow> http" where
  "SuccessPage list total' page pageSize =
     (200, \<lparr>Code = CodeSuccess, Message = ''success'',
            Data = Some (PageData_json list total' page pageSize)\<rparr>)"

definition Error :: "int \<Rightarrow> string \<Rightarrow> http" where
  "Error code message =
     (let httpStatus = (if code \<ge> 400 \<and> code < 500 then 400
                        else if code \<ge> 500 then 500
                        else 200)
      in (httpStatus, \<lparr>Code = code, Message = message, Data = None\<rparr>))"

definition BadRequest :: "string \<Rightarrow> http" where
  "BadRequest message = Error CodeBadRequest message"

definition NotFound :: "string \<Rightarrow> http" where
  "NotFound message =
     (let message = (if message = [] then ''resource not found'' else message)
      in (404, \<lparr>Code = CodeNotFound, Message = message, Data = None\<rparr>))"

definition ServerError :: "string \<Rightarrow> http" where
  "ServerError message =
     (let message = (if message = [] then ''internal server error'' else message)
      in (500, \<lparr>Code = CodeServerError, Message = message, Data = None\<rparr>))"

section \<open>The handlers (\<^verbatim>\<open>internal/handler\<close>)\<close>

text \<open>
  The handlers of \<^verbatim>\<open>UserHandler\<close>, each to the status and the body of its response.
  The outcome of gin's binding (\<^verbatim>\<open>ShouldBindJSON\<close>, \<^verbatim>\<open>ShouldBindQuery\<close>) is an
  argument: the bound request, or the text of the binding error. So is the outcome of
  \<^verbatim>\<open>strconv.ParseInt\<close> on the path's id: the id, if it is one.
\<close>

definition UserHandler_Create ::
  "store \<Rightarrow> (string \<Rightarrow> int \<Rightarrow> string result) \<Rightarrow> world \<Rightarrow> string + CreateUserRequest \<Rightarrow> http \<times> world" where
  "UserHandler_Create s GenerateFromPassword w bound =
     (case bound of
        Inl msg \<Rightarrow> (BadRequest (''invalid request parameters: '' @ msg), w)
      | Inr req \<Rightarrow>
          (case UserService_Create s GenerateFromPassword w req of
             (Inl err, w') \<Rightarrow>
               if errors_Is err ErrUserAlreadyExists then
                 (BadRequest ''username already exists'', w')
               else if errors_Is err ErrEmailAlreadyUsed then
                 (BadRequest ''email already used'', w')
               else (ServerError ''create user failed'', w')
           | (Inr user, w') \<Rightarrow> (Success (Some (User_json user)), w')))"

definition UserHandler_Get :: "store \<Rightarrow> world \<Rightarrow> int option \<Rightarrow> http \<times> world" where
  "UserHandler_Get s w parsed =
     (case parsed of
        None \<Rightarrow> (BadRequest ''invalid user id'', w)
      | Some i \<Rightarrow>
          (case UserService_GetByID s w i of
             (Inl err, w') \<Rightarrow>
               if errors_Is err ErrUserNotFound then (NotFound ''user not found'', w')
               else (ServerError ''get user failed'', w')
           | (Inr user, w') \<Rightarrow> (Success (Some (User_json user)), w')))"

definition UserHandler_List ::
  "store \<Rightarrow> world \<Rightarrow> string + UserQueryParams \<Rightarrow> http \<times> world" where
  "UserHandler_List s w bound =
     (case bound of
        Inl msg \<Rightarrow> (BadRequest (''invalid request parameters: '' @ msg), w)
      | Inr params \<Rightarrow>
          (case UserService_List s w params of
             (Inl err, w') \<Rightarrow> (ServerError ''list users failed'', w')
           | (Inr (found, total'), w') \<Rightarrow>
               (let page = (if Page params < 1 then 1 else Page params);
                    pageSize = (if PageSize params < 1 then 10 else PageSize params)
                in (SuccessPage found total' page pageSize, w'))))"

definition UserHandler_Update ::
  "store \<Rightarrow> world \<Rightarrow> int option \<Rightarrow> string + UpdateUserRequest \<Rightarrow> http \<times> world" where
  "UserHandler_Update s w parsed bound =
     (case parsed of
        None \<Rightarrow> (BadRequest ''invalid user id'', w)
      | Some i \<Rightarrow>
          (case bound of
             Inl msg \<Rightarrow> (BadRequest (''invalid request parameters: '' @ msg), w)
           | Inr req \<Rightarrow>
               (case UserService_Update s w i req of
                  (Inl err, w') \<Rightarrow>
                    if errors_Is err ErrUserNotFound then (NotFound ''user not found'', w')
                    else if errors_Is err ErrUserAlreadyExists then
                      (BadRequest ''username already exists'', w')
                    else if errors_Is err ErrEmailAlreadyUsed then
                      (BadRequest ''email already used'', w')
                    else (ServerError ''update user failed'', w')
                | (Inr user, w') \<Rightarrow> (Success (Some (User_json user)), w'))))"

definition UserHandler_Delete :: "store \<Rightarrow> world \<Rightarrow> int option \<Rightarrow> http \<times> world" where
  "UserHandler_Delete s w parsed =
     (case parsed of
        None \<Rightarrow> (BadRequest ''invalid user id'', w)
      | Some i \<Rightarrow>
          (case UserService_Delete s w i of
             (Inl err, w') \<Rightarrow>
               if errors_Is err ErrUserNotFound then (NotFound ''user not found'', w')
               else (ServerError ''delete user failed'', w')
           | (Inr u, w') \<Rightarrow> (Success None, w')))"

section \<open>Well-formed tables and example data\<close>

text \<open>
  What the constraints of the table and its sequence keep: no two rows share an id, a
  username or an email, every id is positive and below the next value of the sequence,
  and the sequence is positive.
\<close>

definition wf_world :: "world \<Rightarrow> bool" where
  "wf_world w =
     (distinct (map ID (users w)) \<and> distinct (map User.Username (users w)) \<and>
      distinct (map User.Email (users w)) \<and>
      list_all (\<lambda>x. 0 < ID x \<and> ID x < nextval w) (users w) \<and> 0 < nextval w)"

text \<open>The data of the closed instances below; \<open>a_hash\<close> stands in for bcrypt there.\<close>

definition a_hash :: "string \<Rightarrow> int \<Rightarrow> string result" where
  "a_hash password cost = Inr (''$2a$10$'' @ rev password)"

definition alice :: User where
  "alice = \<lparr>ID = 1, CreatedAt = 5, UpdatedAt = 5, Username = ''alice'',
            Email = ''a@x.com'', Password = ''$2a$10$1terces'', Status = 1\<rparr>"

definition bob :: User where
  "bob = \<lparr>ID = 2, CreatedAt = 6, UpdatedAt = 6, Username = ''bob'',
          Email = ''b@x.com'', Password = ''$2a$10$2terces'', Status = 1\<rparr>"

definition two_users :: "event list \<Rightarrow> world" where
  "two_users es = \<lparr>users = [alice, bob], nextval = 3, now = 9, sched = es\<rparr>"

definition no_users :: "event list \<Rightarrow> world" where
  "no_users es = \<lparr>users = [], nextval = 1, now = 9, sched = es\<rparr>"

definition create_request :: "string \<Rightarrow> string \<Rightarrow> string \<Rightarrow> CreateUserRequest" where
  "create_request username email password =
     \<lparr>CreateUserRequest.Username = username, CreateUserRequest.Email = email,
      CreateUserRequest.Password = password\<rparr>"

definition update_request :: "string \<Rightarrow> string \<Rightarrow> int option \<Rightarrow> UpdateUserRequest" where
  "update_request username email status =
     \<lparr>UpdateUserRequest.Username = username, UpdateUserRequest.Email = email,
      UpdateUserRequest.Status = status\<rparr>"

definition all_users :: "int \<Rightarrow> int \<Rightarrow> UserQueryParams" where
  "all_users page pageSize =
     \<lparr>UserQueryParams.Username = [], UserQueryParams.Email = [],
      UserQueryParams.Status = None, Page = page, PageSize = pageSize\<rparr>"

definition numbered :: "nat \<Rightarrow> User" where
  "numbered n = \<lparr>ID = int n, CreatedAt = 5, UpdatedAt = 5,
                  Username = replicate n (CHR ''a''), Email = replicate n (CHR ''b''),
                  Password = [], Status = 1\<rparr>"

definition big_table :: world where
  "big_table = \<lparr>users = map numbered [1..<102], nextval = 102, now = 9, sched = []\<rparr>"

section \<open>Redaction\<close>

text \<open>
  A record, a table and a hash function without their passwords, and the outcome of a run
  without the passwords in it: these state that a response does not depend on a password.
\<close>

definition redact_user :: "User \<Rightarrow> User" where
  "redact_user u = u\<lparr>User.Password := []\<rparr>"

definition redact_world :: "world \<Rightarrow> world" where
  "redact_world w = w\<lparr>users := map redact_user (users w)\<rparr>"

definition redact_hash ::
  "(string \<Rightarrow> int \<Rightarrow> string result) \<Rightarrow> string \<Rightarrow> int \<Rightarrow> string result" where
  "redact_hash GenerateFromPassword password cost =
     (case GenerateFromPassword password cost of Inl err \<Rightarrow> Inl err | Inr hashed \<Rightarrow> Inr [])"

definition redact_page :: "User list \<times> int \<Rightarrow> User list \<times> int" where
  "redact_page p = (map redact_user (fst p), snd p)"

definition redact_run :: "('a \<Rightarrow> 'b) \<Rightarrow> 'a result \<times> world \<Rightarrow> 'b result \<times> world" where
  "redact_run g run = (case run of (Inl e, w) \<Rightarrow> (Inl e, redact_world w)
                                 | (Inr v, w) \<Rightarrow> (Inr (g v), redact_world w))"

section \<open>Statements and the schedule\<close>

lemma begin_stmt_quiet: "sched w = [] \<Longrightarrow> begin_stmt w = (None, w)"
  by (simp add: begin_stmt_def)

lemma stmt_quiet: "sched w = [] \<Longrightarrow> stmt w run = run w"
  by (simp add: stmt_def begin_stmt_quiet)

lemma stmt_Proceed: "sched w = Proceed # es \<Longrightarrow> stmt w run = run (w\<lparr>sched := es\<rparr>)"
  by (simp add: stmt_def begin_stmt_def)

lemma stmt_Fail:
  "sched w = Fail m # es \<Longrightarrow> stmt w run = (Inl (DriverError m), w\<lparr>sched := es\<rparr>)"
  by (simp add: stmt_def begin_stmt_def)

lemma sched_Nil: "sched w = [] \<Longrightarrow> w\<lparr>sched := []\<rparr> = w"
  by (cases w) simp

text \<open>A statement proceeds when the schedule is at its end or its first event says so.\<close>

lemma stmt_proceeds:
  "set (take 1 (sched w)) \<subseteq> {Proceed} \<Longrightarrow> stmt w run = run (w\<lparr>sched := tl (sched w)\<rparr>)"
  by (cases "sched w") (auto simp: stmt_def begin_stmt_def sched_Nil)

lemma three_proceed:
  assumes "set (take 3 es) \<subseteq> {Proceed}"
  shows "set (take 1 es) \<subseteq> {Proceed}" and "set (take 1 (tl es)) \<subseteq> {Proceed}"
    and "set (take 1 (tl (tl es))) \<subseteq> {Proceed}"
  using assms
  by (cases es; cases "tl es"; cases "tl (tl es)"; auto simp: numeral_3_eq_3)+

text \<open>A statement fails with a driver error or with the error of what it runs.\<close>

lemma stmt_error:
  "stmt w run = (Inl e, w') \<Longrightarrow> (\<exists>m. e = DriverError m) \<or> (\<exists>w1. run w1 = (Inl e, w'))"
  by (auto simp: stmt_def begin_stmt_def split: list.splits event.splits prod.splits option.splits)

lemma insert_row_error:
  "insert_row w idopt ca ua un em pw st = (Inl e, w') \<Longrightarrow> \<exists>c. e = UniqueViolation c"
  by (auto simp: insert_row_def Let_def split: if_splits)

lemma sql_insert_error:
  "sql_insert w idopt ca ua un em pw st = (Inl e, w') \<Longrightarrow>
   (\<exists>m. e = DriverError m) \<or> (\<exists>c. e = UniqueViolation c)"
  unfolding sql_insert_def by (drule stmt_error) (auto dest: insert_row_error)

lemma insert_row_fresh:
  "nextval w \<notin> ID ` set (users w) \<Longrightarrow> un \<notin> User.Username ` set (users w) \<Longrightarrow>
   em \<notin> User.Email ` set (users w) \<Longrightarrow>
   insert_row w None ca ua un em pw st =
     (Inr \<lparr>ID = nextval w, CreatedAt = ca, UpdatedAt = ua,
            Username = un, Email = em, Password = pw, Status = st\<rparr>,
      w\<lparr>nextval := nextval w + 1,
        users := users w @ [\<lparr>ID = nextval w, CreatedAt = ca, UpdatedAt = ua,
            Username = un, Email = em, Password = pw, Status = st\<rparr>]\<rparr>)"
  by (fastforce simp: insert_row_def Let_def filter_empty_conv image_iff)

section \<open>Lists of rows\<close>

lemma sort_key_const: "\<forall>x\<in>set xs. f x = c \<Longrightarrow> sort_key f xs = xs"
proof (induction xs)
  case Nil
  then show ?case by simp
next
  case (Cons a xs)
  then show ?case by (cases xs) auto
qed

lemma sort_key_filter_eq [simp]:
  "sort_key f (filter (\<lambda>x. f x = c) xs) = filter (\<lambda>x. f x = c) xs"
  by (rule sort_key_const [where c = c]) simp


lemma concat_windows:
  "concat (map (\<lambda>k. take m (drop (k * m) xs)) [0..<n]) = take (n * m) xs"
proof (induction n)
  case 0
  then show ?case by simp
next
  case (Suc n)
  have "take (n * m) xs @ take m (drop (n * m) xs) = take (n * m + m) xs"
    by (simp add: take_add)
  with Suc show ?case by (simp add: add.commute)
qed

lemma order_by_id_desc_set [simp]: "set (order_by_id_desc rs) = set rs"
  by (simp add: order_by_id_desc_def)

lemma order_by_id_desc_length [simp]: "length (order_by_id_desc rs) = length rs"
  by (simp add: order_by_id_desc_def)

lemma order_by_id_desc_distinct:
  "distinct (map ID rs) \<Longrightarrow> distinct (map ID (order_by_id_desc rs))"
  by (simp add: order_by_id_desc_def distinct_map rev_map [symmetric])

lemma order_by_id_desc_sorted:
  assumes "distinct (map ID rs)"
  shows "sorted_wrt (\<lambda>a b. ID a > ID b) (order_by_id_desc rs)"
proof -
  have "sorted (map ID (sort_key ID rs))" by (rule sorted_sort_key)
  moreover have "distinct (map ID (sort_key ID rs))"
    using assms by (simp add: distinct_map)
  ultimately have "sorted_wrt (<) (map ID (sort_key ID rs))"
    by (simp add: strict_sorted_iff)
  then have "sorted_wrt (\<lambda>a b. ID a < ID b) (sort_key ID rs)"
    by (simp add: sorted_wrt_map)
  then show ?thesis
    by (simp add: order_by_id_desc_def sorted_wrt_rev)
qed

lemma wrap_int_id: "0 \<le> x \<Longrightarrow> x < 2 ^ 63 \<Longrightarrow> wrap_int x = x"
  by (simp add: wrap_int_def)

section \<open>Well-formed tables\<close>





section \<open>The repository when the statements proceed\<close>

lemma ExistsByUsername_proceeds:
  "set (take 1 (sched w)) \<subseteq> {Proceed} \<Longrightarrow>
   UserRepository_ExistsByUsername s w n =
     (Inr (n \<in> User.Username ` set (users w)), w\<lparr>sched := tl (sched w)\<rparr>)"
  by (cases s)
     (auto simp: UserRepository_ExistsByUsername_def UserRepository_ExistsByUsername_gorm_def
        UserRepository_ExistsByUsername_pgx_def gorm_Count_def sql_count_def sql_select_def
        stmt_proceeds filter_empty_conv)

lemma ExistsByEmail_proceeds:
  "set (take 1 (sched w)) \<subseteq> {Proceed} \<Longrightarrow>
   UserRepository_ExistsByEmail s w n =
     (Inr (n \<in> User.Email ` set (users w)), w\<lparr>sched := tl (sched w)\<rparr>)"
  by (cases s)
     (auto simp: UserRepository_ExistsByEmail_def UserRepository_ExistsByEmail_gorm_def
        UserRepository_ExistsByEmail_pgx_def gorm_Count_def sql_count_def sql_select_def
        stmt_proceeds filter_empty_conv)

lemma Create_proceeds_fresh:
  "set (take 1 (sched w)) \<subseteq> {Proceed} \<Longrightarrow> ID user = 0 \<Longrightarrow> CreatedAt user = 0 \<Longrightarrow>
   UpdatedAt user = 0 \<Longrightarrow> nextval w \<notin> ID ` set (users w) \<Longrightarrow>
   User.Username user \<notin> User.Username ` set (users w) \<Longrightarrow>
   User.Email user \<notin> User.Email ` set (users w) \<Longrightarrow>
   UserRepository_Create s w user =
     (Inr (user\<lparr>ID := nextval w, CreatedAt := now w, UpdatedAt := now w\<rparr>),
      w\<lparr>sched := tl (sched w), nextval := nextval w + 1,
        users := users w @ [user\<lparr>ID := nextval w, CreatedAt := now w, UpdatedAt := now w\<rparr>]\<rparr>)"
  by (cases s)
     (simp_all add: UserRepository_Create_def UserRepository_Create_gorm_def
        UserRepository_Create_pgx_def gorm_Create_def sql_insert_def stmt_proceeds
        insert_row_fresh)

text \<open>No error of the repository's \<open>Create\<close> is or wraps a sentinel of the service.\<close>

lemma Create_error:
  "UserRepository_Create s w user = (Inl e, w') \<Longrightarrow>
   \<not> errors_Is e ErrUserAlreadyExists \<and> \<not> errors_Is e ErrEmailAlreadyUsed"
  by (cases s)
     (auto simp: UserRepository_Create_def UserRepository_Create_gorm_def
        UserRepository_Create_pgx_def gorm_Create_def
        split: sum.splits prod.splits dest!: sql_insert_error)

lemma GetByID_quiet:
  "sched w = [] \<Longrightarrow>
   UserRepository_GetByID s w i =
     (case filter (\<lambda>x. ID x = i) (users w) of
        [] \<Rightarrow> (Inl (case s of GORM \<Rightarrow> Errorf ''user not found''
                                | PGX \<Rightarrow> Wrapf ''get user failed'' ErrNoRows), w)
      | u # _ \<Rightarrow> (Inr u, w))"
  by (cases s)
     (simp_all add: UserRepository_GetByID_def UserRepository_GetByID_gorm_def
        UserRepository_GetByID_pgx_def gorm_First_def first_or_not_found_def scan_user_def
        QueryRow_Scan_def sql_select_def stmt_quiet split: list.split)

lemma GetByID_Fail:
  "sched w = Fail m # es \<Longrightarrow>
   UserRepository_GetByID s w i =
     (Inl (Wrapf ''get user failed'' (DriverError m)), w\<lparr>sched := es\<rparr>)"
  by (cases s)
     (simp_all add: UserRepository_GetByID_def UserRepository_GetByID_gorm_def
        UserRepository_GetByID_pgx_def gorm_First_def first_or_not_found_def scan_user_def
        QueryRow_Scan_def sql_select_def stmt_Fail)

text \<open>The struct after a successful \<open>Update\<close> has the fields that were passed.\<close>

lemma Update_fields:
  "UserRepository_Update s w user = (Inr user', w') \<Longrightarrow>
   User.Username user' = User.Username user \<and> User.Email user' = User.Email user \<and>
   User.Status user' = User.Status user \<and> User.Password user' = User.Password user"
  by (cases s)
     (auto simp: UserRepository_Update_def UserRepository_Update_gorm_def
        UserRepository_Update_pgx_def gorm_Save_def gorm_Create_def sql_insert_def stmt_def
        insert_row_def Let_def QueryRow_Scan_def
        split: if_splits sum.splits prod.splits option.splits list.splits)



lemma Delete_quiet_absent:
  "sched w = [] \<Longrightarrow> filter (\<lambda>x. ID x = i) (users w) = [] \<Longrightarrow>
   UserRepository_Delete s w i =
     (case s of GORM \<Rightarrow> (Inl (Errorf ''user not found''), w) | PGX \<Rightarrow> (Inr (), w))"
proof -
  assume q: "sched w = []" and a: "filter (\<lambda>x. ID x = i) (users w) = []"
  from a have "filter (\<lambda>x. ID x \<noteq> i) (users w) = users w"
    by (simp add: filter_empty_conv filter_id_conv)
  with q a show ?thesis
    by (cases s)
       (simp_all add: UserRepository_Delete_def UserRepository_Delete_gorm_def
         UserRepository_Delete_pgx_def gorm_Delete_def sql_delete_def stmt_quiet)
qed

lemma where_clause_page [simp]:
  "where_clause (params\<lparr>Page := p, PageSize := n\<rparr>) = where_clause params"
  by (simp add: where_clause_def fun_eq_iff)

lemma where_clause_all [simp]: "where_clause (all_users p n) = (\<lambda>u. True)"
  by (simp add: where_clause_def all_users_def fun_eq_iff)

lemma sql_select_page_quiet:
  "sched w = [] \<Longrightarrow> 0 \<le> l \<Longrightarrow> 0 \<le> k \<Longrightarrow>
   sql_select_page w P (Some l) (Some k) =
     (Inr (take (nat l) (drop (nat k) (order_by_id_desc (filter P (users w))))), w)"
  by (simp add: sql_select_page_def stmt_quiet Let_def)

lemma gorm_Find_quiet:
  "sched w = [] \<Longrightarrow> 0 \<le> l \<Longrightarrow> 0 \<le> k \<Longrightarrow>
   gorm_Find w P l k =
     (Inr (take (nat l) (drop (nat k) (order_by_id_desc (filter P (users w))))), w)"
  by (simp add: gorm_Find_def sql_select_page_def stmt_quiet Let_def)

lemma List_quiet:
  assumes "sched w = []"
    and "page = (if Page params < 1 then 1 else Page params)"
    and "pageSize = (if PageSize params < 1 then 10 else PageSize params)"
    and "(page - 1) * pageSize < 2 ^ 63"
  shows "UserRepository_List s w params =
           (Inr (take (nat pageSize) (drop (nat ((page - 1) * pageSize))
                   (order_by_id_desc (filter (where_clause params) (users w)))),
                 int (length (filter (where_clause params) (users w)))), w)"
proof -
  have p: "1 \<le> page" "1 \<le> pageSize" using assms(2,3) by auto
  then have nn: "0 \<le> (page - 1) * pageSize" by simp
  then have off: "wrap_int ((page - 1) * pageSize) = (page - 1) * pageSize"
    using assms(4) by (rule wrap_int_id)
  have ps: "0 \<le> pageSize" using p by simp
  show ?thesis
  proof (cases s)
    case GORM
    then show ?thesis
      using assms(1) off
      by (simp add: UserRepository_List_def UserRepository_List_gorm_def gorm_Count_def
          sql_count_def stmt_quiet Let_def gorm_Find_quiet [OF assms(1) ps nn]
          flip: assms(2,3))
  next
    case PGX
    then show ?thesis
      using assms(1) off
      by (simp add: UserRepository_List_def UserRepository_List_pgx_def
          sql_count_def stmt_quiet Let_def sql_select_page_quiet [OF assms(1) ps nn]
          flip: assms(2,3))
  qed
qed

section \<open>Runs on a table without passwords\<close>

lemma redact_user_simps [simp]:
  "ID (redact_user u) = ID u" "CreatedAt (redact_user u) = CreatedAt u"
  "UpdatedAt (redact_user u) = UpdatedAt u" "User.Username (redact_user u) = User.Username u"
  "User.Email (redact_user u) = User.Email u" "User.Status (redact_user u) = User.Status u"
  "User.Password (redact_user u) = []"
  by (simp_all add: redact_user_def)

lemma redact_user_update [simp]:
  "redact_user (u\<lparr>ID := i\<rparr>) = (redact_user u)\<lparr>ID := i\<rparr>"
  "redact_user (u\<lparr>CreatedAt := c\<rparr>) = (redact_user u)\<lparr>CreatedAt := c\<rparr>"
  "redact_user (u\<lparr>UpdatedAt := c\<rparr>) = (redact_user u)\<lparr>UpdatedAt := c\<rparr>"
  "redact_user (u\<lparr>User.Username := n\<rparr>) = (redact_user u)\<lparr>User.Username := n\<rparr>"
  "redact_user (u\<lparr>User.Email := n\<rparr>) = (redact_user u)\<lparr>User.Email := n\<rparr>"
  "redact_user (u\<lparr>User.Status := st\<rparr>) = (redact_user u)\<lparr>User.Status := st\<rparr>"
  by (simp_all add: redact_user_def)

lemma redact_world_simps [simp]:
  "users (redact_world w) = map redact_user (users w)" "nextval (redact_world w) = nextval w"
  "now (redact_world w) = now w" "sched (redact_world w) = sched w"
  "redact_world (w\<lparr>sched := es\<rparr>) = (redact_world w)\<lparr>sched := es\<rparr>"
  "redact_world (w\<lparr>nextval := n\<rparr>) = (redact_world w)\<lparr>nextval := n\<rparr>"
  "redact_world (w\<lparr>users := us\<rparr>) = w\<lparr>users := map redact_user us\<rparr>"
  by (simp_all add: redact_world_def)

lemma redact_run_simps [simp]:
  "redact_run g (Inl e, w) = (Inl e, redact_world w)"
  "redact_run g (Inr v, w) = (Inr (g v), redact_world w)"
  by (simp_all add: redact_run_def)

lemma redact_run_if:
  "redact_run g (if c then a else b) = (if c then redact_run g a else redact_run g b)"
  by simp

text \<open>A result of the redacted run is taken apart as the result of the run itself.\<close>

lemma case_redact_run:
  "(case redact_run g x of (Inl e, w') \<Rightarrow> A e w' | (Inr v, w') \<Rightarrow> B v w') =
   (case x of (Inl e, w') \<Rightarrow> A e (redact_world w') | (Inr v, w') \<Rightarrow> B (g v) (redact_world w'))"
  by (cases x; cases "fst x") simp_all

lemma redact_run_case:
  "redact_run h (case x of (Inl e, w') \<Rightarrow> A e w' | (Inr v, w') \<Rightarrow> B v w') =
   (case x of (Inl e, w') \<Rightarrow> redact_run h (A e w') | (Inr v, w') \<Rightarrow> redact_run h (B v w'))"
  by (cases x; cases "fst x") simp_all

lemma case_run_cong:
  assumes "\<And>e w'. A e w' = A' e w'" and "\<And>v w'. B v w' = B' v w'"
  shows "(case x of (Inl e, w') \<Rightarrow> A e w' | (Inr v, w') \<Rightarrow> B v w') =
         (case x of (Inl e, w') \<Rightarrow> A' e w' | (Inr v, w') \<Rightarrow> B' v w')"
  using assms by (cases x; cases "fst x") simp_all

lemma User_json_redact [simp]: "User_json (redact_user u) = User_json u"
  by (simp add: User_json_def)

lemma filter_redact:
  "(\<And>u. P (redact_user u) = P u) \<Longrightarrow>
   filter P (map redact_user us) = map redact_user (filter P us)"
  by (induction us) auto

lemma insort_redact:
  "insort_key ID (redact_user u) (map redact_user us) = map redact_user (insort_key ID u us)"
  by (induction us) auto

lemma sort_redact: "sort_key ID (map redact_user us) = map redact_user (sort_key ID us)"
  by (induction us) (auto simp: insort_redact)

lemma order_redact: "order_by_id_desc (map redact_user us) = map redact_user (order_by_id_desc us)"
  by (simp add: order_by_id_desc_def sort_redact rev_map)

lemma insert_row_redact:
  "insert_row (redact_world w) idopt ca ua un em [] st =
     redact_run redact_user (insert_row w idopt ca ua un em pw st)"
  by (simp add: insert_row_def Let_def filter_redact redact_user_def redact_world_def
      split: option.split)

lemma begin_stmt_redact:
  "begin_stmt (redact_world w) = (fst (begin_stmt w), redact_world (snd (begin_stmt w)))"
proof -
  have "snd (insert_row (redact_world w) None ca ua un em [] st) =
        redact_world (snd (insert_row w None ca ua un em [] st))" for ca ua un em st
    by (simp add: insert_row_def Let_def filter_redact redact_user_def redact_world_def)
  then show ?thesis
    by (simp add: begin_stmt_def split: list.split event.split)
qed

lemma stmt_redact:
  assumes "\<And>w1. run' (redact_world w1) = redact_run g (run w1)"
  shows "stmt (redact_world w) run' = redact_run g (stmt w run)"
  by (simp add: stmt_def begin_stmt_redact assms split: prod.split option.split)

lemma sql_insert_redact:
  "sql_insert (redact_world w) idopt ca ua un em [] st =
     redact_run redact_user (sql_insert w idopt ca ua un em pw st)"
  unfolding sql_insert_def by (rule stmt_redact) (rule insert_row_redact)

lemma sql_select_redact:
  assumes "\<And>u. P (redact_user u) = P u"
  shows "sql_select (redact_world w) P = redact_run (map redact_user) (sql_select w P)"
  unfolding sql_select_def by (rule stmt_redact) (simp add: filter_redact assms)

lemma sql_count_redact:
  assumes "\<And>u. P (redact_user u) = P u"
  shows "sql_count (redact_world w) P = redact_run id (sql_count w P)"
  unfolding sql_count_def by (rule stmt_redact) (simp add: filter_redact assms)

lemma sql_select_page_redact:
  assumes "\<And>u. P (redact_user u) = P u"
  shows "sql_select_page (redact_world w) P lim off =
           redact_run (map redact_user) (sql_select_page w P lim off)"
  unfolding sql_select_page_def
  by (rule stmt_redact)
     (simp add: filter_redact assms order_redact Let_def take_map drop_map split: option.split)

lemma sql_update_redact:
  assumes "\<And>x. f' (redact_user x) = redact_user (f x)"
  shows "sql_update (redact_world w) i f' = redact_run (map redact_user) (sql_update w i f)"
  unfolding sql_update_def
  by (rule stmt_redact) (simp add: filter_redact assms Let_def comp_def image_image)

lemma sql_delete_redact:
  "sql_delete (redact_world w) i = redact_run id (sql_delete w i)"
  unfolding sql_delete_def by (rule stmt_redact) (simp add: filter_redact)


lemma gorm_Create_redact:
  "gorm_Create (redact_world w) (redact_user user) = redact_run redact_user (gorm_Create w user)"
  by (simp add: gorm_Create_def sql_insert_redact [where pw = "User.Password user"])

lemma Create_redact:
  "UserRepository_Create s (redact_world w) (redact_user user) =
     redact_run redact_user (UserRepository_Create s w user)"
proof (cases s)
  case GORM
  then show ?thesis
    by (simp add: UserRepository_Create_def UserRepository_Create_gorm_def
        gorm_Create_redact case_redact_run redact_run_case
        cong: prod.case_cong sum.case_cong)
next
  case PGX
  then show ?thesis
    by (simp add: UserRepository_Create_def UserRepository_Create_pgx_def
        sql_insert_redact [where pw = "User.Password user"] case_redact_run redact_run_case
        cong: prod.case_cong sum.case_cong)
qed

lemma gorm_First_redact:
  assumes "\<And>u. P (redact_user u) = P u"
  shows "gorm_First (redact_world w) P = redact_run redact_user (gorm_First w P)"
proof -
  have "(case sort_key ID (map redact_user rs) of
           [] \<Rightarrow> (Inl ErrRecordNotFound, redact_world w')
         | r # x \<Rightarrow> (Inr r, redact_world w')) =
        redact_run redact_user
          (case sort_key ID rs of [] \<Rightarrow> (Inl ErrRecordNotFound, w') | r # x \<Rightarrow> (Inr r, w'))"
    for rs w'
    by (cases "sort_key ID rs") (simp_all add: sort_redact)
  then show ?thesis
    by (simp add: gorm_First_def sql_select_redact [of P, OF assms] case_redact_run
        redact_run_case cong: prod.case_cong sum.case_cong)
qed

lemma first_redact:
  "first_or_not_found (redact_run redact_user x) = redact_run redact_user (first_or_not_found x)"
  by (cases x; cases "fst x") (simp_all add: first_or_not_found_def)

lemma QueryRow_Scan_redact:
  "QueryRow_Scan (redact_run (map g) x) = redact_run g (QueryRow_Scan x)"
proof (cases x)
  case (Pair r w')
  then show ?thesis
  proof (cases r)
    case (Inl e)
    with Pair show ?thesis by (simp add: QueryRow_Scan_def)
  next
    case (Inr rs)
    with Pair show ?thesis by (cases rs) (simp_all add: QueryRow_Scan_def)
  qed
qed

lemma scan_redact:
  "scan_user (redact_run (map redact_user) x) = redact_run redact_user (scan_user x)"
  by (simp add: scan_user_def QueryRow_Scan_redact case_redact_run redact_run_case
        cong: prod.case_cong sum.case_cong)

lemma GetByID_redact:
  "UserRepository_GetByID s (redact_world w) i =
     redact_run redact_user (UserRepository_GetByID s w i)"
  by (cases s)
     (simp_all add: UserRepository_GetByID_def UserRepository_GetByID_gorm_def
       UserRepository_GetByID_pgx_def gorm_First_redact sql_select_redact first_redact
       scan_redact)

lemma GetByUsername_redact:
  "UserRepository_GetByUsername s (redact_world w) n =
     redact_run redact_user (UserRepository_GetByUsername s w n)"
  by (cases s)
     (simp_all add: UserRepository_GetByUsername_def UserRepository_GetByUsername_gorm_def
       UserRepository_GetByUsername_pgx_def gorm_First_redact sql_select_redact first_redact
       scan_redact)

lemma GetByEmail_redact:
  "UserRepository_GetByEmail s (redact_world w) n =
     redact_run redact_user (UserRepository_GetByEmail s w n)"
  by (cases s)
     (simp_all add: UserRepository_GetByEmail_def UserRepository_GetByEmail_gorm_def
       UserRepository_GetByEmail_pgx_def gorm_First_redact sql_select_redact first_redact
       scan_redact)

lemma ExistsByUsername_redact:
  "UserRepository_ExistsByUsername s (redact_world w) n =
     redact_run id (UserRepository_ExistsByUsername s w n)"
  by (cases s)
     (simp_all add: UserRepository_ExistsByUsername_def
       UserRepository_ExistsByUsername_gorm_def UserRepository_ExistsByUsername_pgx_def
       gorm_Count_def sql_count_redact sql_select_redact case_redact_run redact_run_case
        cong: prod.case_cong sum.case_cong)

lemma ExistsByEmail_redact:
  "UserRepository_ExistsByEmail s (redact_world w) n =
     redact_run id (UserRepository_ExistsByEmail s w n)"
  by (cases s)
     (simp_all add: UserRepository_ExistsByEmail_def
       UserRepository_ExistsByEmail_gorm_def UserRepository_ExistsByEmail_pgx_def
       gorm_Count_def sql_count_redact sql_select_redact case_redact_run redact_run_case
        cong: prod.case_cong sum.case_cong)


lemma where_clause_redact: "where_clause params (redact_user u) = where_clause params u"
  by (simp add: where_clause_def split: option.split)

lemma List_redact:
  "UserRepository_List s (redact_world w) params =
     redact_run redact_page (UserRepository_List s w params)"
  by (cases s)
     (simp_all add: UserRepository_List_def UserRepository_List_gorm_def
       UserRepository_List_pgx_def gorm_Count_def gorm_Find_def Let_def redact_page_def
       sql_count_redact where_clause_redact sql_select_page_redact
       case_redact_run redact_run_case cong: prod.case_cong sum.case_cong)

lemma gorm_Save_redact:
  "gorm_Save (redact_world w) (redact_user user) =
     redact_run (\<lambda>p. (redact_user (fst p), snd p)) (gorm_Save w user)"
proof -
  have "sql_update (redact_world w) (ID user) (\<lambda>x. (redact_user user)\<lparr>UpdatedAt := now w\<rparr>) =
        redact_run (map redact_user) (sql_update w (ID user) (\<lambda>x. user\<lparr>UpdatedAt := now w\<rparr>))"
    by (rule sql_update_redact) simp
  then show ?thesis
    by (simp add: gorm_Save_def gorm_Create_redact case_redact_run redact_run_case
        cong: prod.case_cong sum.case_cong)
qed

lemma Update_redact:
  "UserRepository_Update s (redact_world w) (redact_user user) =
     redact_run redact_user (UserRepository_Update s w user)"
proof (cases s)
  case GORM
  obtain r w1 where e: "gorm_Save w user = (r, w1)" by (cases "gorm_Save w user")
  show ?thesis
  proof (cases r)
    case (Inl err)
    with GORM e show ?thesis
      by (simp add: UserRepository_Update_def UserRepository_Update_gorm_def gorm_Save_redact)
  next
    case (Inr p)
    with GORM e show ?thesis
      by (cases p)
         (simp add: UserRepository_Update_def UserRepository_Update_gorm_def gorm_Save_redact)
  qed
next
  case PGX
  have "sql_update (redact_world w) (ID user)
          (\<lambda>x. x\<lparr>User.Username := User.Username user, User.Email := User.Email user,
                  User.Status := User.Status user, UpdatedAt := now w\<rparr>) =
        redact_run (map redact_user)
          (sql_update w (ID user)
            (\<lambda>x. x\<lparr>User.Username := User.Username user, User.Email := User.Email user,
                  User.Status := User.Status user, UpdatedAt := now w\<rparr>))"
    by (rule sql_update_redact) simp
  with PGX show ?thesis
    by (simp add: UserRepository_Update_def UserRepository_Update_pgx_def
        QueryRow_Scan_redact case_redact_run redact_run_case
        cong: prod.case_cong sum.case_cong)
qed

lemma Delete_redact:
  "UserRepository_Delete s (redact_world w) i = redact_run id (UserRepository_Delete s w i)"
  by (cases s)
     (simp_all add: UserRepository_Delete_def UserRepository_Delete_gorm_def
       UserRepository_Delete_pgx_def gorm_Delete_def sql_delete_redact
       case_redact_run redact_run_case redact_run_if
       cong: prod.case_cong sum.case_cong if_cong)


lemma Create_service_redact:
  "UserService_Create s (redact_hash GenerateFromPassword) (redact_world w) req =
     redact_run redact_user (UserService_Create s GenerateFromPassword w req)"
proof -
  have u: "\<lparr>ID = 0, CreatedAt = 0, UpdatedAt = 0, Username = un, Email = em, Password = [],
            Status = st\<rparr> =
           redact_user \<lparr>ID = 0, CreatedAt = 0, UpdatedAt = 0, Username = un, Email = em,
            Password = pw, Status = st\<rparr>" for un em pw st
    by (simp add: redact_user_def)
  show ?thesis
    by (simp add: UserService_Create_def ExistsByUsername_redact ExistsByEmail_redact
        redact_hash_def u [where pw = "projr (GenerateFromPassword (CreateUserRequest.Password req) bcrypt_DefaultCost)"]
        Create_redact case_redact_run redact_run_case redact_run_if Let_def
        cong: prod.case_cong sum.case_cong if_cong split: sum.split)
qed


lemma GetByID_service_redact:
  "UserService_GetByID s (redact_world w) i =
     redact_run redact_user (UserService_GetByID s w i)"
  by (simp add: UserService_GetByID_def GetByID_redact case_redact_run redact_run_case
      cong: prod.case_cong sum.case_cong)

lemma List_service_redact:
  "UserService_List s (redact_world w) params =
     redact_run redact_page (UserService_List s w params)"
  by (simp add: UserService_List_def List_redact)

lemma Update_save_redact:
  "Update_save s (redact_world w) req (redact_user user) =
     redact_run redact_user (Update_save s w req user)"
proof -
  have "(case UpdateUserRequest.Status req of
           Some st \<Rightarrow> (redact_user user)\<lparr>User.Status := st\<rparr> | None \<Rightarrow> redact_user user) =
        redact_user (case UpdateUserRequest.Status req of
           Some st \<Rightarrow> user\<lparr>User.Status := st\<rparr> | None \<Rightarrow> user)"
    by (simp split: option.split)
  then show ?thesis
    by (simp add: Update_save_def Let_def Update_redact case_redact_run redact_run_case
        cong: prod.case_cong sum.case_cong)
qed

lemma Update_email_redact:
  "Update_email s (redact_world w) i req (redact_user user) =
     redact_run redact_user (Update_email s w i req user)"
  by (simp add: Update_email_def GetByEmail_redact case_redact_run redact_run_case
      redact_run_if Update_save_redact [symmetric]
      cong: prod.case_cong sum.case_cong if_cong)

lemma Update_username_redact:
  "Update_username s (redact_world w) i req (redact_user user) =
     redact_run redact_user (Update_username s w i req user)"
  by (simp add: Update_username_def GetByUsername_redact case_redact_run redact_run_case
      redact_run_if Update_email_redact [symmetric]
      cong: prod.case_cong sum.case_cong if_cong)

lemma Update_service_redact:
  "UserService_Update s (redact_world w) i req =
     redact_run redact_user (UserService_Update s w i req)"
  by (simp add: UserService_Update_def GetByID_redact case_redact_run redact_run_case
      Update_username_redact cong: prod.case_cong sum.case_cong)

lemma PageData_json_redact:
  "PageData_json (map redact_user us) n page pageSize = PageData_json us n page pageSize"
  by (simp add: PageData_json_def)

section \<open>The invariant of the table\<close>

text \<open>
  A well-formed table stays well formed through every statement, whatever the schedule
  does to it: a failure leaves the table as it is, an insert of another session is under
  the constraints of the table as the inserts of this one are, and an update that would
  bring a second row of a username or an email is refused. So the repository and the
  service keep the usernames and the emails of the rows distinct, on GORM and on pgx.
\<close>

lemma wf_sched [simp]: "wf_world (w\<lparr>sched := es\<rparr>) = wf_world w"
  by (simp add: wf_world_def)

lemma insert_row_wf:
  assumes "wf_world w"
  shows "wf_world (snd (insert_row w None ca ua un em pw st))"
  using assms
  by (auto simp: insert_row_def Let_def wf_world_def list_all_iff filter_empty_conv image_iff)

lemma begin_stmt_wf: "wf_world w \<Longrightarrow> wf_world (snd (begin_stmt w))"
  by (auto simp: begin_stmt_def insert_row_wf split: list.split event.split)

lemma stmt_wf:
  assumes "\<And>w1. wf_world w1 \<Longrightarrow> wf_world (snd (run w1))" and "wf_world w"
  shows "wf_world (snd (stmt w run))"
proof (cases "begin_stmt w")
  case (Pair r w')
  with begin_stmt_wf [OF assms(2)] have "wf_world w'" by simp
  with Pair assms(1) show ?thesis by (cases r) (simp_all add: stmt_def)
qed

lemma update_rows_distinct:
  assumes "distinct (map ID us)" and "distinct (map key us)"
    and "\<forall>x\<in>set us. \<forall>y\<in>set us. ID x \<noteq> i \<and> ID y = i \<longrightarrow> key x \<noteq> key (f y)"
  shows "distinct (map key (map (\<lambda>x. if ID x = i then f x else x) us))"
  using assms
proof (induction us)
  case Nil
  then show ?case by simp
next
  case (Cons a us)
  let ?g = "\<lambda>x. if ID x = i then f x else x"
  have ih: "distinct (map key (map ?g us))"
    using Cons by auto
  have "key (?g a) \<noteq> key (?g x)" if "x \<in> set us" for x
  proof (cases "ID a = i")
    case True
    with Cons.prems(1) that have "ID x \<noteq> i" by (auto simp: image_iff)
    with True Cons.prems(3) that show ?thesis by (auto simp: eq_commute)
  next
    case False
    show ?thesis
    proof (cases "ID x = i")
      case True
      with False Cons.prems(3) that show ?thesis by auto
    next
      case x: False
      with False Cons.prems(2) that show ?thesis by (auto simp: image_iff)
    qed
  qed
  with ih show ?case by (auto simp: image_iff)
qed

lemma sql_update_wf:
  assumes "wf_world w" and "\<And>x. ID x = i \<Longrightarrow> ID (f x) = i"
  shows "wf_world (snd (sql_update w i f))"
proof -
  have run: "wf_world (snd
    (let new = map f (filter (\<lambda>x. ID x = i) (users w1));
         others = filter (\<lambda>x. ID x \<noteq> i) (users w1)
     in if filter (\<lambda>x. User.Username x \<in> set (map User.Username new)) others \<noteq> [] then
          (Inl (UniqueViolation ''users_username_key''), w1)
        else if filter (\<lambda>x. User.Email x \<in> set (map User.Email new)) others \<noteq> [] then
          (Inl (UniqueViolation ''users_email_key''), w1)
        else (Inr new, w1\<lparr>users := map (\<lambda>x. if ID x = i then f x else x) (users w1)\<rparr>)))"
    if wf: "wf_world w1" for w1
  proof -
    let ?g = "\<lambda>x. if ID x = i then f x else x"
    have same: "ID (?g x) = ID x" for x using assms(2) by simp
    have ids: "map ID (map ?g (users w1)) = map ID (users w1)"
      by (simp add: same comp_def)
    have un: "distinct (map User.Username (map ?g (users w1)))"
      if "filter (\<lambda>x. User.Username x \<in> set (map User.Username (map f (filter (\<lambda>x. ID x = i) (users w1)))))
            (filter (\<lambda>x. ID x \<noteq> i) (users w1)) = []"
      using wf that
      by (intro update_rows_distinct) (auto simp: wf_world_def filter_empty_conv image_iff)
    have em: "distinct (map User.Email (map ?g (users w1)))"
      if "filter (\<lambda>x. User.Email x \<in> set (map User.Email (map f (filter (\<lambda>x. ID x = i) (users w1)))))
            (filter (\<lambda>x. ID x \<noteq> i) (users w1)) = []"
      using wf that
      by (intro update_rows_distinct) (auto simp: wf_world_def filter_empty_conv image_iff)
    have rng: "list_all (\<lambda>x. 0 < ID x \<and> ID x < nextval w1) (map ?g (users w1))"
      using wf assms(2) by (auto simp: wf_world_def list_all_iff)
    show ?thesis
      using wf un em rng ids
      by (simp add: Let_def wf_world_def del: filter_filter map_map)
  qed
  show ?thesis
    unfolding sql_update_def using run assms(1) by (rule stmt_wf)
qed

lemma sql_delete_wf: "wf_world w \<Longrightarrow> wf_world (snd (sql_delete w i))"
  unfolding sql_delete_def
  by (rule stmt_wf) (auto simp: wf_world_def distinct_map_filter list_all_iff)

lemma sql_insert_wf:
  "wf_world w \<Longrightarrow> wf_world (snd (sql_insert w None ca ua un em pw st))"
  unfolding sql_insert_def by (rule stmt_wf) (auto simp: insert_row_wf)

lemma sql_select_wf: "wf_world w \<Longrightarrow> wf_world (snd (sql_select w P))"
  unfolding sql_select_def by (rule stmt_wf) auto

lemma sql_count_wf: "wf_world w \<Longrightarrow> wf_world (snd (sql_count w P))"
  unfolding sql_count_def by (rule stmt_wf) auto

lemma sql_select_page_wf: "wf_world w \<Longrightarrow> wf_world (snd (sql_select_page w P lim off))"
  unfolding sql_select_page_def by (rule stmt_wf) (auto simp: Let_def)

lemma wf_run:
  assumes "wf_world (snd x)"
    and "\<And>e w'. wf_world w' \<Longrightarrow> wf_world (snd (A e w'))"
    and "\<And>v w'. wf_world w' \<Longrightarrow> wf_world (snd (B v w'))"
  shows "wf_world (snd (case x of (Inl e, w') \<Rightarrow> A e w' | (Inr v, w') \<Rightarrow> B v w'))"
  using assms by (cases x; cases "fst x") auto

lemma wf_run':
  assumes "wf_world (snd x)"
    and "\<And>e w'. wf_world w' \<Longrightarrow> wf_world (snd (A e w'))"
    and "\<And>v w'. wf_world w' \<Longrightarrow> wf_world (snd (B v w'))"
  shows "wf_world (snd (case x of (Inr v, w') \<Rightarrow> B v w' | (Inl e, w') \<Rightarrow> A e w'))"
  using assms by (cases x; cases "fst x") auto

lemma gorm_Create_wf:
  assumes "wf_world w" and "ID user = 0"
  shows "wf_world (snd (gorm_Create w user))"
  unfolding gorm_Create_def using assms(2) by (simp add: sql_insert_wf [OF assms(1)])

lemma Create_wf:
  assumes "wf_world w" and "ID user = 0"
  shows "wf_world (snd (UserRepository_Create s w user))"
proof (cases s)
  case GORM
  show ?thesis
    unfolding UserRepository_Create_def UserRepository_Create_gorm_def GORM store.case
    by (rule wf_run) (simp_all add: gorm_Create_wf [OF assms])
next
  case PGX
  show ?thesis
    unfolding UserRepository_Create_def UserRepository_Create_pgx_def PGX store.case
    by (rule wf_run) (simp_all add: sql_insert_wf [OF assms(1)])
qed


lemma gorm_First_wf: "wf_world w \<Longrightarrow> wf_world (snd (gorm_First w P))"
  unfolding gorm_First_def
  by (rule wf_run) (simp_all add: sql_select_wf split: list.split)

lemma first_or_not_found_wf: "wf_world (snd x) \<Longrightarrow> wf_world (snd (first_or_not_found x))"
  unfolding first_or_not_found_def
  by (rule wf_run) simp_all

lemma QueryRow_Scan_wf: "wf_world (snd x) \<Longrightarrow> wf_world (snd (QueryRow_Scan x))"
  unfolding QueryRow_Scan_def
  by (cases x; cases "fst x") (auto split: list.split)

lemma scan_user_wf: "wf_world (snd x) \<Longrightarrow> wf_world (snd (scan_user x))"
  unfolding scan_user_def
  by (rule wf_run) (simp_all add: QueryRow_Scan_wf)

lemmas Get_wf = first_or_not_found_wf [OF gorm_First_wf] scan_user_wf [OF sql_select_wf]

lemma GetByID_wf: "wf_world w \<Longrightarrow> wf_world (snd (UserRepository_GetByID s w i))"
  by (cases s)
     (simp_all add: UserRepository_GetByID_def UserRepository_GetByID_gorm_def
       UserRepository_GetByID_pgx_def Get_wf)

lemma GetByUsername_wf: "wf_world w \<Longrightarrow> wf_world (snd (UserRepository_GetByUsername s w n))"
  by (cases s)
     (simp_all add: UserRepository_GetByUsername_def UserRepository_GetByUsername_gorm_def
       UserRepository_GetByUsername_pgx_def Get_wf)

lemma GetByEmail_wf: "wf_world w \<Longrightarrow> wf_world (snd (UserRepository_GetByEmail s w n))"
  by (cases s)
     (simp_all add: UserRepository_GetByEmail_def UserRepository_GetByEmail_gorm_def
       UserRepository_GetByEmail_pgx_def Get_wf)

lemma ExistsByUsername_wf:
  assumes "wf_world w"
  shows "wf_world (snd (UserRepository_ExistsByUsername s w n))"
proof (cases s)
  case GORM
  show ?thesis
    unfolding UserRepository_ExistsByUsername_def UserRepository_ExistsByUsername_gorm_def
      gorm_Count_def GORM store.case
    by (rule wf_run) (simp_all add: sql_count_wf [OF assms])
next
  case PGX
  show ?thesis
    unfolding UserRepository_ExistsByUsername_def UserRepository_ExistsByUsername_pgx_def
      PGX store.case
    by (rule wf_run) (simp_all add: sql_select_wf [OF assms])
qed

lemma ExistsByEmail_wf:
  assumes "wf_world w"
  shows "wf_world (snd (UserRepository_ExistsByEmail s w n))"
proof (cases s)
  case GORM
  show ?thesis
    unfolding UserRepository_ExistsByEmail_def UserRepository_ExistsByEmail_gorm_def
      gorm_Count_def GORM store.case
    by (rule wf_run) (simp_all add: sql_count_wf [OF assms])
next
  case PGX
  show ?thesis
    unfolding UserRepository_ExistsByEmail_def UserRepository_ExistsByEmail_pgx_def
      PGX store.case
    by (rule wf_run) (simp_all add: sql_select_wf [OF assms])
qed

lemma gorm_Find_wf: "wf_world w \<Longrightarrow> wf_world (snd (gorm_Find w P l k))"
  unfolding gorm_Find_def by (rule sql_select_page_wf)

lemma List_wf:
  assumes "wf_world w"
  shows "wf_world (snd (UserRepository_List s w params))"
proof (cases s)
  case GORM
  show ?thesis
    unfolding UserRepository_List_def UserRepository_List_gorm_def
      gorm_Count_def GORM store.case Let_def
    by (rule wf_run, simp add: sql_count_wf [OF assms], simp)
       (rule wf_run, simp_all add: gorm_Find_wf)
next
  case PGX
  show ?thesis
    unfolding UserRepository_List_def UserRepository_List_pgx_def PGX store.case Let_def
    by (rule wf_run, simp add: sql_count_wf [OF assms], simp)
       (rule wf_run, simp_all add: sql_select_page_wf)
qed

lemma gorm_Save_wf:
  assumes "wf_world w"
  shows "wf_world (snd (gorm_Save w user))"
proof (cases "ID user = 0")
  case True
  have "wf_world (snd (case gorm_Create w user of
           (Inl e, w') \<Rightarrow> (Inl e, w')
         | (Inr r, w') \<Rightarrow> (Inr (r, 1::int), w')))"
    by (rule wf_run) (simp_all add: gorm_Create_wf [OF assms True])
  with True show ?thesis
    by (simp add: gorm_Save_def)
next
  case False
  have "wf_world (snd (sql_update w (ID user) (\<lambda>x. user\<lparr>UpdatedAt := now w\<rparr>)))"
    using assms by (rule sql_update_wf) simp
  then have "wf_world (snd (case sql_update w (ID user) (\<lambda>x. user\<lparr>UpdatedAt := now w\<rparr>) of
           (Inl e, w') \<Rightarrow> (Inl e, w')
         | (Inr rs, w') \<Rightarrow> (Inr (user\<lparr>UpdatedAt := now w\<rparr>, int (length rs)), w')))"
    by - (rule wf_run, simp_all)
  with False show ?thesis
    by (simp add: gorm_Save_def)
qed

lemma Update_wf:
  assumes "wf_world w"
  shows "wf_world (snd (UserRepository_Update s w user))"
proof (cases s)
  case GORM
  show ?thesis
    unfolding UserRepository_Update_def UserRepository_Update_gorm_def GORM store.case
    by (rule wf_run) (simp_all add: gorm_Save_wf [OF assms] split: prod.split)
next
  case PGX
  have "wf_world (snd (sql_update w (ID user)
                (\<lambda>x. x\<lparr>User.Username := User.Username user, User.Email := User.Email user,
                        User.Status := User.Status user, UpdatedAt := now w\<rparr>)))"
    using assms by (rule sql_update_wf) simp
  then show ?thesis
    unfolding UserRepository_Update_def UserRepository_Update_pgx_def PGX store.case
    by - (rule wf_run, simp_all add: QueryRow_Scan_wf)
qed

lemma Delete_wf:
  assumes "wf_world w"
  shows "wf_world (snd (UserRepository_Delete s w i))"
proof (cases s)
  case GORM
  show ?thesis
    unfolding UserRepository_Delete_def UserRepository_Delete_gorm_def gorm_Delete_def
      GORM store.case
    by (rule wf_run) (simp_all add: sql_delete_wf [OF assms])
next
  case PGX
  show ?thesis
    unfolding UserRepository_Delete_def UserRepository_Delete_pgx_def PGX store.case
    by (rule wf_run) (simp_all add: sql_delete_wf [OF assms])
qed


lemma Service_GetByID_wf: "wf_world w \<Longrightarrow> wf_world (snd (UserService_GetByID s w i))"
  unfolding UserService_GetByID_def
  by (rule wf_run) (simp_all add: GetByID_wf)

lemma Service_List_wf: "wf_world w \<Longrightarrow> wf_world (snd (UserService_List s w params))"
  unfolding UserService_List_def by (rule List_wf)

lemma Service_Delete_wf: "wf_world w \<Longrightarrow> wf_world (snd (UserService_Delete s w i))"
  unfolding UserService_Delete_def
  by (rule wf_run) (simp_all add: GetByID_wf Delete_wf)

lemma Update_save_wf: "wf_world w \<Longrightarrow> wf_world (snd (Update_save s w req user))"
  unfolding Update_save_def Let_def
  by (rule wf_run) (simp_all add: Update_wf)

lemma Update_email_wf:
  assumes "wf_world w"
  shows "wf_world (snd (Update_email s w i req user))"
proof (cases "UpdateUserRequest.Email req = []")
  case True
  then show ?thesis by (simp add: Update_email_def Update_save_wf [OF assms])
next
  case False
  have "wf_world (snd (case UserRepository_GetByEmail s w (UpdateUserRequest.Email req) of
           (Inr existingUser, w') \<Rightarrow>
             if ID existingUser \<noteq> i then (Inl ErrEmailAlreadyUsed, w')
             else Update_save s w' req (user\<lparr>User.Email := UpdateUserRequest.Email req\<rparr>)
         | (Inl err, w') \<Rightarrow>
             Update_save s w' req (user\<lparr>User.Email := UpdateUserRequest.Email req\<rparr>)))"
    by (rule wf_run') (simp_all add: GetByEmail_wf [OF assms] Update_save_wf)
  with False show ?thesis by (simp add: Update_email_def)
qed

lemma Update_username_wf:
  assumes "wf_world w"
  shows "wf_world (snd (Update_username s w i req user))"
proof (cases "UpdateUserRequest.Username req = []")
  case True
  then show ?thesis by (simp add: Update_username_def Update_email_wf [OF assms])
next
  case False
  have "wf_world (snd (case UserRepository_GetByUsername s w (UpdateUserRequest.Username req) of
           (Inr existingUser, w') \<Rightarrow>
             if ID existingUser \<noteq> i then (Inl ErrUserAlreadyExists, w')
             else Update_email s w' i req
                    (user\<lparr>User.Username := UpdateUserRequest.Username req\<rparr>)
         | (Inl err, w') \<Rightarrow>
             Update_email s w' i req (user\<lparr>User.Username := UpdateUserRequest.Username req\<rparr>)))"
    by (rule wf_run') (simp_all add: GetByUsername_wf [OF assms] Update_email_wf)
  with False show ?thesis by (simp add: Update_username_def)
qed

lemma Service_Update_wf: "wf_world w \<Longrightarrow> wf_world (snd (UserService_Update s w i req))"
  unfolding UserService_Update_def
  by (rule wf_run) (simp_all add: GetByID_wf Update_username_wf)

lemma Service_Create_wf:
  assumes "wf_world w"
  shows "wf_world (snd (UserService_Create s h w req))"
  unfolding UserService_Create_def Let_def
  apply (rule wf_run)
    apply (rule ExistsByUsername_wf [OF assms])
   apply simp
  apply (simp only: split: if_split)
  apply (intro conjI impI)
   apply simp
  apply (rule wf_run)
    apply (erule ExistsByEmail_wf)
   apply simp
  apply (simp only: split: if_split)
  apply (intro conjI impI)
   apply simp
  apply (cases "h (CreateUserRequest.Password req) bcrypt_DefaultCost")
   apply simp
  apply (simp only: sum.case)
  apply (rule wf_run)
    apply (rule Create_wf)
     apply assumption
    apply simp
   apply simp
  apply simp
  done

section \<open>Evaluation of the closed instances\<close>

lemmas sql_defs =
  stmt_def begin_stmt_def insert_row_def sql_insert_def sql_select_def sql_count_def
  sql_select_page_def sql_update_def sql_delete_def order_by_id_desc_def
  gorm_Create_def gorm_First_def gorm_Count_def gorm_Find_def gorm_Save_def gorm_Delete_def
  QueryRow_Scan_def scan_user_def first_or_not_found_def

lemmas repository_defs =
  UserRepository_Create_def UserRepository_Create_gorm_def UserRepository_Create_pgx_def
  UserRepository_GetByID_def UserRepository_GetByID_gorm_def UserRepository_GetByID_pgx_def
  UserRepository_GetByUsername_def UserRepository_GetByUsername_gorm_def
  UserRepository_GetByUsername_pgx_def
  UserRepository_GetByEmail_def UserRepository_GetByEmail_gorm_def
  UserRepository_GetByEmail_pgx_def
  UserRepository_List_def UserRepository_List_gorm_def UserRepository_List_pgx_def
  UserRepository_Update_def UserRepository_Update_gorm_def UserRepository_Update_pgx_def
  UserRepository_Delete_def UserRepository_Delete_gorm_def UserRepository_Delete_pgx_def
  UserRepository_ExistsByUsername_def UserRepository_ExistsByUsername_gorm_def
  UserRepository_ExistsByUsername_pgx_def
  UserRepository_ExistsByEmail_def UserRepository_ExistsByEmail_gorm_def
  UserRepository_ExistsByEmail_pgx_def

lemmas service_defs =
  UserService_Create_def UserService_GetByID_def UserService_List_def UserService_Update_def
  Update_username_def Update_email_def Update_save_def UserService_Delete_def
  bcrypt_DefaultCost_def UserStatusActive_def

lemmas example_defs =
  a_hash_def alice_def bob_def two_users_def no_users_def create_request_def
  update_request_def all_users_def

lemma wf_no_users: "wf_world (no_users es)"
  by (simp add: wf_world_def no_users_def)

lemma big_table_ids: "map ID (users big_table) = map int [1..<102]"
  by (simp add: big_table_def numbered_def)

lemma wf_big_table: "wf_world big_table"
proof -
  have "map User.Username (users big_table) = map (\<lambda>n. replicate n (CHR ''a'')) [1..<102]"
    and "map User.Email (users big_table) = map (\<lambda>n. replicate n (CHR ''b'')) [1..<102]"
    by (simp_all add: big_table_def numbered_def)
  moreover have "inj_on (\<lambda>n. replicate n c) A" for c :: char and A
    by (rule inj_onI) (metis length_replicate)
  ultimately have "distinct (map User.Username (users big_table))"
    and "distinct (map User.Email (users big_table))"
    by (simp_all only: distinct_map distinct_upt simp_thms)
  moreover have "distinct (map ID (users big_table))"
    by (simp add: big_table_ids distinct_map)
  moreover have "list_all (\<lambda>x. 0 < ID x \<and> ID x < nextval big_table) (users big_table)"
    by (auto simp: big_table_def numbered_def list_all_iff)
  ultimately show ?thesis
    by (simp add: wf_world_def big_table_def)
qed

lemma a_hash_cost: "a_hash password cost = a_hash password bcrypt_DefaultCost"
  by (simp add: a_hash_def)

lemma create_request_fields:
  "CreateUserRequest.Username (create_request n e p) = n"
  "CreateUserRequest.Email (create_request n e p) = e"
  "CreateUserRequest.Password (create_request n e p) = p"
  by (simp_all add: create_request_def)

lemma update_request_fields:
  "UpdateUserRequest.Username (update_request n e st) = n"
  "UpdateUserRequest.Email (update_request n e st) = e"
  "UpdateUserRequest.Status (update_request n e st) = st"
  by (simp_all add: update_request_def)

section \<open>The claims\<close>

subsection \<open>C1: a constraint violation at the insert\<close>

text \<open>
  C1 says that a create request whose existence checks pass and whose insert then fails on
  a uniqueness constraint gets the \<open>AlreadyExists\<close> error of the checks. The service has
  no such mapping. What holds: when both checks say no, the password is hashed and the
  repository's \<open>Create\<close> fails with an error \<open>e\<close>, whatever it is, the service returns
  \<open>e\<close> wrapped as "create user failed"; that error is neither \<open>ErrUserAlreadyExists\<close> nor
  \<open>ErrEmailAlreadyUsed\<close> for \<^verbatim>\<open>errors.Is\<close>, and the handler answers 500.
\<close>

theorem Create_insert_failure:
  assumes "UserRepository_ExistsByUsername s w (CreateUserRequest.Username req) = (Inr False, w1)"
    and "UserRepository_ExistsByEmail s w1 (CreateUserRequest.Email req) = (Inr False, w2)"
    and "GenerateFromPassword (CreateUserRequest.Password req) bcrypt_DefaultCost =
           Inr hashedPassword"
    and "UserRepository_Create s w2
           \<lparr>ID = 0, CreatedAt = 0, UpdatedAt = 0,
            Username = CreateUserRequest.Username req, Email = CreateUserRequest.Email req,
            Password = hashedPassword, Status = UserStatusActive\<rparr> = (Inl e, w3)"
  shows "UserService_Create s GenerateFromPassword w req =
           (Inl (Wrapf ''create user failed'' e), w3) \<and>
         \<not> errors_Is (Wrapf ''create user failed'' e) ErrUserAlreadyExists \<and>
         \<not> errors_Is (Wrapf ''create user failed'' e) ErrEmailAlreadyUsed \<and>
         UserHandler_Create s GenerateFromPassword w (Inr req) =
           (ServerError ''create user failed'', w3)"
proof -
  have c: "UserService_Create s GenerateFromPassword w req =
           (Inl (Wrapf ''create user failed'' e), w3)"
    using assms by (simp add: UserService_Create_def)
  have n: "\<not> errors_Is e ErrUserAlreadyExists \<and> \<not> errors_Is e ErrEmailAlreadyUsed"
    using assms(4) by (rule Create_error)
  show ?thesis using c n by (simp add: UserHandler_Create_def)
qed

text \<open>
  An instance on pgx: the table is empty at both checks, and a concurrent request inserts
  alice just before the insert of this one.
\<close>

theorem Create_insert_failure_witness:
  "UserRepository_ExistsByUsername PGX
     (no_users [Proceed, Proceed, Concurrent_Insert ''alice'' ''other@x.com''])
     (CreateUserRequest.Username (create_request ''alice'' ''a@x.com'' ''secret1'')) =
     (Inr False, no_users [Proceed, Concurrent_Insert ''alice'' ''other@x.com'']) \<and>
   UserRepository_ExistsByEmail PGX
     (no_users [Proceed, Concurrent_Insert ''alice'' ''other@x.com''])
     (CreateUserRequest.Email (create_request ''alice'' ''a@x.com'' ''secret1'')) =
     (Inr False, no_users [Concurrent_Insert ''alice'' ''other@x.com'']) \<and>
   UserService_Create PGX a_hash
     (no_users [Proceed, Proceed, Concurrent_Insert ''alice'' ''other@x.com''])
     (create_request ''alice'' ''a@x.com'' ''secret1'') =
     (Inl (Wrapf ''create user failed'' (UniqueViolation ''users_username_key'')),
      \<lparr>users = [\<lparr>ID = 1, CreatedAt = 9, UpdatedAt = 9, Username = ''alice'',
                  Email = ''other@x.com'', Password = [], Status = 1\<rparr>],
       nextval = 3, now = 9, sched = []\<rparr>) \<and>
   fst (UserHandler_Create PGX a_hash
     (no_users [Proceed, Proceed, Concurrent_Insert ''alice'' ''other@x.com''])
     (Inr (create_request ''alice'' ''a@x.com'' ''secret1''))) =
     ServerError ''create user failed''"
proof -
  let ?ci = "Concurrent_Insert ''alice'' ''other@x.com''"
  let ?req = "create_request ''alice'' ''a@x.com'' ''secret1''"
  let ?w3 = "\<lparr>users = [\<lparr>ID = 1, CreatedAt = 9, UpdatedAt = 9, Username = ''alice'',
                  Email = ''other@x.com'', Password = [], Status = 1\<rparr>],
       nextval = 3, now = 9, sched = []\<rparr>"
  have h1: "UserRepository_ExistsByUsername PGX (no_users [Proceed, Proceed, ?ci])
              (CreateUserRequest.Username ?req) = (Inr False, no_users [Proceed, ?ci])"
    by (simp add: repository_defs sql_defs example_defs)
  have h2: "UserRepository_ExistsByEmail PGX (no_users [Proceed, ?ci])
              (CreateUserRequest.Email ?req) = (Inr False, no_users [?ci])"
    by (simp add: repository_defs sql_defs example_defs)
  have h3: "a_hash (CreateUserRequest.Password ?req) bcrypt_DefaultCost = Inr ''$2a$10$1terces''"
    by (simp add: example_defs)
  have h4: "UserRepository_Create PGX (no_users [?ci])
           \<lparr>ID = 0, CreatedAt = 0, UpdatedAt = 0,
            Username = CreateUserRequest.Username ?req, Email = CreateUserRequest.Email ?req,
            Password = ''$2a$10$1terces'', Status = UserStatusActive\<rparr> =
           (Inl (UniqueViolation ''users_username_key''), ?w3)"
    by (simp add: repository_defs sql_defs example_defs UserStatusActive_def Let_def)
  from Create_insert_failure [where GenerateFromPassword = a_hash, OF h1 h2 h3 h4] h1 h2
  show ?thesis by simp
qed

text \<open>
  Against C1 as stated, on GORM: the same race. Both checks find no alice, the insert fails
  on the constraint of the username, and the service's error is not \<open>ErrUserAlreadyExists\<close>,
  the error of the username check; the handler answers 500 and not 400.
\<close>

theorem Create_race_counterexample:
  "fst (UserRepository_ExistsByUsername GORM
          (no_users [Proceed, Proceed, Concurrent_Insert ''alice'' ''other@x.com'']) ''alice'') =
     Inr False \<and>
   fst (UserRepository_ExistsByEmail GORM
          (no_users [Proceed, Concurrent_Insert ''alice'' ''other@x.com'']) ''a@x.com'') =
     Inr False \<and>
   fst (UserService_Create GORM a_hash
          (no_users [Proceed, Proceed, Concurrent_Insert ''alice'' ''other@x.com''])
          (create_request ''alice'' ''a@x.com'' ''secret1'')) =
     Inl (Wrapf ''create user failed''
            (Wrapf ''create user failed'' (UniqueViolation ''users_username_key''))) \<and>
   \<not> errors_Is (Wrapf ''create user failed''
            (Wrapf ''create user failed'' (UniqueViolation ''users_username_key'')))
        ErrUserAlreadyExists \<and>
   fst (UserHandler_Create GORM a_hash
          (no_users [Proceed, Proceed, Concurrent_Insert ''alice'' ''other@x.com''])
          (Inr (create_request ''alice'' ''a@x.com'' ''secret1''))) =
     ServerError ''create user failed''"
  by (simp add: UserHandler_Create_def service_defs repository_defs sql_defs example_defs Let_def)

subsection \<open>C2: \<open>GetByID\<close> and the failures of the store\<close>

text \<open>
  C2 says that \<open>GetByID\<close> of the service returns \<open>NotFound\<close> exactly when the store
  reports no row, and never for another failure of the store. The service returns
  \<open>ErrUserNotFound\<close> for every error of the lookup. What holds: on a quiet schedule it
  returns the row of the id, or \<open>ErrUserNotFound\<close> when there is none; when the statement
  fails with a driver error the repository reports "get user failed" around that error and
  the service returns \<open>ErrUserNotFound\<close> all the same; and whatever error the repository
  returns, the service returns \<open>ErrUserNotFound\<close> and no other error.
\<close>

theorem GetByID_any_failure_NotFound:
  "(sched w = [] \<longrightarrow>
      UserService_GetByID s w i =
        (case filter (\<lambda>x. ID x = i) (users w) of
           [] \<Rightarrow> (Inl ErrUserNotFound, w)
         | u # _ \<Rightarrow> (Inr u, w))) \<and>
   (sched w = Fail m # es \<longrightarrow>
      UserRepository_GetByID s w i =
        (Inl (Wrapf ''get user failed'' (DriverError m)), w\<lparr>sched := es\<rparr>) \<and>
      UserService_GetByID s w i = (Inl ErrUserNotFound, w\<lparr>sched := es\<rparr>)) \<and>
   (\<forall>e w'. UserRepository_GetByID s w i = (Inl e, w') \<longrightarrow>
      UserService_GetByID s w i = (Inl ErrUserNotFound, w')) \<and>
   (\<forall>e. fst (UserService_GetByID s w i) = Inl e \<longrightarrow> e = ErrUserNotFound)"
  by (auto simp: UserService_GetByID_def GetByID_quiet GetByID_Fail
      split: list.splits sum.splits prod.splits)

theorem GetByID_any_failure_NotFound_witness:
  "sched (two_users []) = [] \<and>
   UserService_GetByID PGX (two_users []) 2 = (Inr bob, two_users []) \<and>
   UserService_GetByID PGX (two_users []) 7 = (Inl ErrUserNotFound, two_users []) \<and>
   sched (two_users [Fail ''timeout'']) = Fail ''timeout'' # [] \<and>
   UserRepository_GetByID PGX (two_users [Fail ''timeout'']) 2 =
     (Inl (Wrapf ''get user failed'' (DriverError ''timeout'')), two_users []) \<and>
   UserService_GetByID PGX (two_users [Fail ''timeout'']) 2 =
     (Inl ErrUserNotFound, two_users [])"
  using GetByID_any_failure_NotFound [where w = "two_users []" and s = PGX and i = 2]
    GetByID_any_failure_NotFound [where w = "two_users []" and s = PGX and i = 7]
    GetByID_any_failure_NotFound [where w = "two_users [Fail ''timeout'']" and s = PGX
      and i = 2 and m = "''timeout''" and es = "[]"]
  by (simp add: example_defs)

text \<open>
  Against C2 as stated, on GORM: alice is in the table, the lookup fails on a refused
  connection, which the repository does not report as its "user not found", and the
  service returns \<open>ErrUserNotFound\<close>; the handler answers 404.
\<close>

theorem GetByID_counterexample:
  "filter (\<lambda>x. ID x = 1) (users (two_users [Fail ''connection refused''])) = [alice] \<and>
   UserRepository_GetByID GORM (two_users [Fail ''connection refused'']) 1 =
     (Inl (Wrapf ''get user failed'' (DriverError ''connection refused'')), two_users []) \<and>
   \<not> errors_Is (Wrapf ''get user failed'' (DriverError ''connection refused''))
        ErrRecordNotFound \<and>
   UserService_GetByID GORM (two_users [Fail ''connection refused'']) 1 =
     (Inl ErrUserNotFound, two_users []) \<and>
   fst (UserHandler_Get GORM (two_users [Fail ''connection refused'']) (Some 1)) =
     NotFound ''user not found''"
  by (simp add: UserHandler_Get_def UserService_GetByID_def GetByID_Fail example_defs)

subsection \<open>C3: the window of \<open>List\<close>\<close>

text \<open>
  C3 says that \<open>List\<close> of the store clamps the page to at least 1 and the page size
  between 1 and 100, with 1 and 10 for values that are missing or invalid, takes the window
  at offset (page - 1) * page size, and counts the whole filtered set. The repository has
  no upper bound on the page size. What holds, on a quiet schedule and as long as the
  product does not leave the 64 bits of Go's \<^verbatim>\<open>int\<close>: the page is the requested one, or
  1 when that is below 1; the page size is the requested one, or 10 when that is below 1;
  the rows are those of the window at offset (page - 1) * page size in the filtered rows
  by descending id; the total is the number of filtered rows, whatever the window.
\<close>

theorem List_window:
  assumes "sched w = []"
    and "page = (if Page params < 1 then 1 else Page params)"
    and "pageSize = (if PageSize params < 1 then 10 else PageSize params)"
    and "(page - 1) * pageSize < 2 ^ 63"
  shows "1 \<le> page \<and> 1 \<le> pageSize \<and>
         UserRepository_List s w params =
           (Inr (take (nat pageSize) (drop (nat ((page - 1) * pageSize))
                   (order_by_id_desc (filter (where_clause params) (users w)))),
                 int (length (filter (where_clause params) (users w)))), w)"
  using List_quiet [OF assms] assms(2,3) by auto

theorem List_window_witness:
  "sched (two_users []) = [] \<and>
   (0::int) = (if Page (all_users 0 0) < 1 then 1 else Page (all_users 0 0)) - 1 \<and>
   UserRepository_List GORM (two_users []) (all_users 0 0) =
     (Inr ([bob, alice], 2), two_users []) \<and>
   UserRepository_List PGX (two_users []) (all_users 2 1) =
     (Inr ([alice], 2), two_users [])"
  using List_window [where w = "two_users []" and params = "all_users 0 0" and s = GORM
      and page = 1 and pageSize = 10]
    List_window [where w = "two_users []" and params = "all_users 2 1" and s = PGX
      and page = 2 and pageSize = 1]
  by (simp add: example_defs order_by_id_desc_def where_clause_def)

text \<open>
  Against C3 as stated: the table has 101 rows and the request asks for a page of 101;
  the repository returns all 101 rows.
\<close>

theorem List_page_size_counterexample:
  "length (users big_table) = 101 \<and>
   PageSize (all_users 1 101) = 101 \<and>
   (case fst (UserRepository_List GORM big_table (all_users 1 101)) of
      Inl e \<Rightarrow> 0 | Inr (found, n) \<Rightarrow> length found) = 101"
proof -
  have "UserRepository_List GORM big_table (all_users 1 101) =
          (Inr (take (nat 101) (drop (nat ((1 - 1) * 101))
                   (order_by_id_desc (filter (where_clause (all_users 1 101)) (users big_table)))),
                 int (length (filter (where_clause (all_users 1 101)) (users big_table)))),
           big_table)"
    by (rule List_quiet) (simp_all add: big_table_def all_users_def)
  then show ?thesis
    by (simp add: big_table_def) (simp add: all_users_def)
qed

subsection \<open>C4: the sequence of \<open>Create\<close>\<close>

text \<open>
  C4: \<open>Create\<close> of the service checks the username and fails with
  \<open>ErrUserAlreadyExists\<close> when a row has it, without a check of the email; otherwise it
  checks the email and fails with \<open>ErrEmailAlreadyUsed\<close> when a row has it; otherwise it
  hashes the password at the fixed cost 10, builds the record with status active and hands
  it to \<open>Create\<close> of the repository. Here the next three statements proceed (the
  schedule may be at its end) and the sequence is ahead of the ids in the table; the
  schedule that is left tells how many statements were run: one, two, two, and three with
  the insert, whose row has the next id, the time of the clock in both timestamps, the
  hash and status 1.
\<close>

theorem UserService_Create_sequence:
  assumes "set (take 3 (sched w)) \<subseteq> {Proceed}"
    and "nextval w \<notin> ID ` set (users w)"
  shows "UserService_Create s GenerateFromPassword w req =
     (if CreateUserRequest.Username req \<in> User.Username ` set (users w) then
        (Inl ErrUserAlreadyExists, w\<lparr>sched := tl (sched w)\<rparr>)
      else if CreateUserRequest.Email req \<in> User.Email ` set (users w) then
        (Inl ErrEmailAlreadyUsed, w\<lparr>sched := tl (tl (sched w))\<rparr>)
      else
        (case GenerateFromPassword (CreateUserRequest.Password req) 10 of
           Inl err \<Rightarrow>
             (Inl (Wrapf ''hash password failed'' err), w\<lparr>sched := tl (tl (sched w))\<rparr>)
         | Inr hashedPassword \<Rightarrow>
             (let row = \<lparr>ID = nextval w, CreatedAt = now w, UpdatedAt = now w,
                         Username = CreateUserRequest.Username req,
                         Email = CreateUserRequest.Email req,
                         Password = hashedPassword, Status = 1\<rparr>
              in (Inr row,
                  w\<lparr>sched := tl (tl (tl (sched w))), nextval := nextval w + 1,
                    users := users w @ [row]\<rparr>))))"
  using assms(2) three_proceed [OF assms(1)]
  by (simp add: UserService_Create_def ExistsByUsername_proceeds ExistsByEmail_proceeds
      Create_proceeds_fresh bcrypt_DefaultCost_def UserStatusActive_def Let_def split: sum.split)

theorem UserService_Create_sequence_witness:
  "set (take 3 (sched (two_users [Proceed, Proceed, Proceed, Fail ''down'']))) \<subseteq> {Proceed} \<and>
   nextval (two_users [Proceed, Proceed, Proceed, Fail ''down'']) \<notin>
     ID ` set (users (two_users [Proceed, Proceed, Proceed, Fail ''down''])) \<and>
   UserService_Create GORM a_hash (two_users [Proceed, Proceed, Proceed, Fail ''down''])
     (create_request ''alice'' ''c@x.com'' ''secret3'') =
     (Inl ErrUserAlreadyExists, two_users [Proceed, Proceed, Fail ''down'']) \<and>
   UserService_Create GORM a_hash (two_users [Proceed, Proceed, Proceed, Fail ''down''])
     (create_request ''carol'' ''b@x.com'' ''secret3'') =
     (Inl ErrEmailAlreadyUsed, two_users [Proceed, Fail ''down'']) \<and>
   UserService_Create GORM a_hash (two_users [Proceed, Proceed, Proceed, Fail ''down''])
     (create_request ''carol'' ''c@x.com'' ''secret3'') =
     (Inr \<lparr>ID = 3, CreatedAt = 9, UpdatedAt = 9, Username = ''carol'', Email = ''c@x.com'',
           Password = ''$2a$10$3terces'', Status = 1\<rparr>,
      \<lparr>users = [alice, bob,
                \<lparr>ID = 3, CreatedAt = 9, UpdatedAt = 9, Username = ''carol'',
                 Email = ''c@x.com'', Password = ''$2a$10$3terces'', Status = 1\<rparr>],
       nextval = 4, now = 9, sched = [Fail ''down'']\<rparr>) \<and>
   set (take 3 (sched (two_users []))) \<subseteq> {Proceed} \<and>
   UserService_Create PGX a_hash (two_users [])
     (create_request ''alice'' ''c@x.com'' ''secret3'') =
     (Inl ErrUserAlreadyExists, two_users [])"
proof -
  let ?w = "two_users [Proceed, Proceed, Proceed, Fail ''down'']"
  have h1: "set (take 3 (sched ?w)) \<subseteq> {Proceed}"
    by (simp add: two_users_def numeral_3_eq_3)
  have h2: "nextval ?w \<notin> ID ` set (users ?w)"
    by (simp add: example_defs)
  have q1: "set (take 3 (sched (two_users []))) \<subseteq> {Proceed}"
    by (simp add: two_users_def)
  have q2: "nextval (two_users []) \<notin> ID ` set (users (two_users []))"
    by (simp add: example_defs)
  from UserService_Create_sequence [OF h1 h2, where s = GORM and GenerateFromPassword = a_hash
      and req = "create_request ''alice'' ''c@x.com'' ''secret3''"]
    UserService_Create_sequence [OF h1 h2, where s = GORM and GenerateFromPassword = a_hash
      and req = "create_request ''carol'' ''b@x.com'' ''secret3''"]
    UserService_Create_sequence [OF h1 h2, where s = GORM and GenerateFromPassword = a_hash
      and req = "create_request ''carol'' ''c@x.com'' ''secret3''"]
    UserService_Create_sequence [OF q1 q2, where s = PGX and GenerateFromPassword = a_hash
      and req = "create_request ''alice'' ''c@x.com'' ''secret3''"]
    h1 h2 q1
  show ?thesis by (simp add: example_defs Let_def)
qed

subsection \<open>C5: the pages of a list, one after the other\<close>

text \<open>
  C5: for a filter that N rows match, the pages 1 to ceil(N/10) of size 10, one after the
  other, are N rows with N distinct ids, the matching rows and no other, by descending
  id. The schedule is quiet, the ids of the table are distinct and N is within Go's
  \<^verbatim>\<open>int\<close>; each request returns its page and the total N.
\<close>

theorem List_pages_concat:
  assumes "sched w = []" and "distinct (map ID (users w))"
    and "N = length (filter (where_clause params) (users w))" and "int N < 2 ^ 63"
  shows "\<exists>pages. length pages = (N + 9) div 10 \<and>
           (\<forall>k<length pages.
              UserService_List s w (params\<lparr>Page := int k + 1, PageSize := 10\<rparr>) =
                (Inr (pages ! k, int N), w)) \<and>
           length (concat pages) = N \<and>
           distinct (map ID (concat pages)) \<and>
           set (concat pages) = {u \<in> set (users w). where_clause params u} \<and>
           sorted_wrt (\<lambda>a b. ID a > ID b) (concat pages)"
proof -
  let ?rs = "order_by_id_desc (filter (where_clause params) (users w))"
  let ?n = "(N + 9) div 10"
  let ?pages = "map (\<lambda>k. take 10 (drop (k * 10) ?rs)) [0..<?n]"
  have len: "length ?rs = N" using assms(3) by simp
  have all: "concat ?pages = ?rs"
  proof -
    have "length ?rs \<le> ?n * 10" unfolding len by arith
    then show ?thesis by (simp only: concat_windows take_all)
  qed
  have page: "UserService_List s w (params\<lparr>Page := int k + 1, PageSize := 10\<rparr>) =
                (Inr (?pages ! k, int N), w)" if "k < ?n" for k
  proof -
    let ?q = "params\<lparr>Page := int k + 1, PageSize := 10\<rparr>"
    from that have "10 * int k < int N" by arith
    with assms(4) have small: "(int k + 1 - 1) * 10 < (2::int) ^ 63" by simp
    have "UserRepository_List s w ?q =
           (Inr (take (nat 10) (drop (nat ((int k + 1 - 1) * 10))
                   (order_by_id_desc (filter (where_clause ?q) (users w)))),
                 int (length (filter (where_clause ?q) (users w)))), w)"
      using assms(1) small by (intro List_quiet) simp_all
    moreover have "nat ((int k + 1 - 1) * 10) = k * 10" by simp
    ultimately show ?thesis
      using that assms(3) by (simp add: UserService_List_def)
  qed
  have d: "distinct (map ID (filter (where_clause params) (users w)))"
    using assms(2) by (rule distinct_map_filter)
  have "length ?pages = ?n" by simp
  moreover have "\<forall>k<length ?pages.
      UserService_List s w (params\<lparr>Page := int k + 1, PageSize := 10\<rparr>) =
        (Inr (?pages ! k, int N), w)"
    using page by simp
  moreover have "length (concat ?pages) = N" by (simp only: all len)
  moreover have "distinct (map ID (concat ?pages))"
    by (simp only: all order_by_id_desc_distinct [OF d])
  moreover have "set (concat ?pages) = {u \<in> set (users w). where_clause params u}"
    by (simp only: all) simp
  moreover have "sorted_wrt (\<lambda>a b. ID a > ID b) (concat ?pages)"
    by (simp only: all order_by_id_desc_sorted [OF d])
  ultimately show ?thesis by blast
qed

theorem List_pages_concat_witness:
  "sched big_table = [] \<and> distinct (map ID (users big_table)) \<and>
   101 = length (filter (where_clause (all_users 0 0)) (users big_table)) \<and>
   (\<exists>pages. length pages = 11 \<and>
      (\<forall>k<length pages.
         UserService_List GORM big_table ((all_users 0 0)\<lparr>Page := int k + 1, PageSize := 10\<rparr>) =
           (Inr (pages ! k, 101), big_table)) \<and>
      length (concat pages) = 101 \<and>
      distinct (map ID (concat pages)) \<and>
      set (concat pages) = {u \<in> set (users big_table). where_clause (all_users 0 0) u} \<and>
      sorted_wrt (\<lambda>a b. ID a > ID b) (concat pages))"
proof -
  have h1: "sched big_table = []" by (simp add: big_table_def)
  have "map ID (users big_table) = map int [1..<102]"
    by (simp add: big_table_def numbered_def)
  then have h2: "distinct (map ID (users big_table))"
    by (simp add: distinct_map)
  have h3: "101 = length (filter (where_clause (all_users 0 0)) (users big_table))"
    by (simp add: big_table_def)
  have h4: "int 101 < 2 ^ 63" by simp
  from List_pages_concat [OF h1 h2 h3 h4, where s = GORM] h1 h2 h3
  show ?thesis by simp
qed

subsection \<open>C6: an update of the status alone\<close>



subsection \<open>C7: the delete of an id that no row has\<close>

text \<open>
  C7 says that for an id that no row has the delete is a \<open>NotFound\<close> and not a store
  error: \<open>Delete\<close> of the service fails with \<open>NotFound\<close> when the fetch finds no row, and
  \<open>Delete\<close> of the store returns success or \<open>NotFound\<close>, the latter when no row was
  deleted. The first part holds over both repositories; the second holds for the
  repository on GORM and not for the one on pgx, which never looks at the number of rows.
  What holds, on a quiet schedule and for an id that no row has: the service returns
  \<open>ErrUserNotFound\<close>; the repository on GORM returns its error "user not found"; the
  repository on pgx returns success.
\<close>

theorem Delete_absent:
  assumes "sched w = []" and "i \<notin> ID ` set (users w)"
  shows "UserService_Delete s w i = (Inl ErrUserNotFound, w) \<and>
         UserRepository_Delete GORM w i = (Inl (Errorf ''user not found''), w) \<and>
         UserRepository_Delete PGX w i = (Inr (), w)"
proof -
  from assms(2) have a: "filter (\<lambda>x. ID x = i) (users w) = []"
    by (auto simp: filter_empty_conv)
  show ?thesis
    using assms(1) a by (simp add: UserService_Delete_def GetByID_quiet Delete_quiet_absent)
qed

theorem Delete_absent_witness:
  "sched (two_users []) = [] \<and> 7 \<notin> ID ` set (users (two_users [])) \<and>
   UserService_Delete GORM (two_users []) 7 = (Inl ErrUserNotFound, two_users []) \<and>
   UserService_Delete PGX (two_users []) 7 = (Inl ErrUserNotFound, two_users []) \<and>
   UserRepository_Delete GORM (two_users []) 7 = (Inl (Errorf ''user not found''), two_users []) \<and>
   UserRepository_Delete PGX (two_users []) 7 = (Inr (), two_users [])"
proof -
  have h1: "sched (two_users []) = []" by (simp add: two_users_def)
  have h2: "7 \<notin> ID ` set (users (two_users []))" by (simp add: example_defs)
  from Delete_absent [OF h1 h2, where s = GORM] Delete_absent [OF h1 h2, where s = PGX] h1 h2
  show ?thesis by simp
qed

text \<open>
  Against C7 as stated, on pgx: the table is empty, and the delete of id 7 by the
  repository is a success.
\<close>

theorem Delete_counterexample:
  "7 \<notin> ID ` set (users (no_users [])) \<and>
   UserRepository_Delete PGX (no_users []) 7 = (Inr (), no_users [])"
  by (simp add: no_users_def Delete_quiet_absent)

subsection \<open>C9: a failed lookup in \<open>Update\<close>\<close>

text \<open>
  C9: in \<open>Update\<close>, when the lookup of the new username, or of the new email, fails with
  any error, the check counts as no conflict: the new value is assigned and the update
  goes on, and the error of the lookup is in no result. After a fetch that found the
  record and a failed lookup of the username, \<open>Update\<close> is the rest of the function, from
  the block of the email, on the record with the new username; after a failed lookup of
  the email, that block is the save of the record with the new email.
\<close>

theorem Update_lookup_error_ignored:
  "(UserRepository_GetByID s w i = (Inr user, w1) \<and> UpdateUserRequest.Username req \<noteq> [] \<and>
      UserRepository_GetByUsername s w1 (UpdateUserRequest.Username req) = (Inl e, w2) \<longrightarrow>
    UserService_Update s w i req =
      Update_email s w2 i req (user\<lparr>User.Username := UpdateUserRequest.Username req\<rparr>)) \<and>
   (UpdateUserRequest.Email req \<noteq> [] \<and>
      UserRepository_GetByEmail s w (UpdateUserRequest.Email req) = (Inl e, w') \<longrightarrow>
    Update_email s w i req user =
      Update_save s w' req (user\<lparr>User.Email := UpdateUserRequest.Email req\<rparr>))"
  by (simp add: UserService_Update_def Update_username_def Update_email_def)

text \<open>
  An instance: the fetch of bob proceeds and the lookup of the new name fails on a reset
  connection; bob is renamed. When the new name is alice's, the update goes on as well, to
  the save, and fails there on the constraint of the table. And the same for a new email.
\<close>

theorem Update_lookup_error_ignored_witness:
  "UserRepository_GetByID GORM (two_users [Proceed, Fail ''connection reset'']) 2 =
     (Inr bob, two_users [Fail ''connection reset'']) \<and>
   UpdateUserRequest.Username (update_request ''carol'' [] None) \<noteq> [] \<and>
   UserRepository_GetByUsername GORM (two_users [Fail ''connection reset''])
       (UpdateUserRequest.Username (update_request ''carol'' [] None)) =
     (Inl (Wrapf ''get user failed'' (DriverError ''connection reset'')), two_users []) \<and>
   UserService_Update GORM (two_users [Proceed, Fail ''connection reset'']) 2
       (update_request ''carol'' [] None) =
     Update_email GORM (two_users []) 2 (update_request ''carol'' [] None)
       (bob\<lparr>User.Username := ''carol''\<rparr>) \<and>
   fst (UserService_Update GORM (two_users [Proceed, Fail ''connection reset'']) 2
       (update_request ''carol'' [] None)) =
     Inr (bob\<lparr>User.Username := ''carol'', UpdatedAt := 9\<rparr>) \<and>
   fst (UserService_Update GORM (two_users [Proceed, Fail ''connection reset'']) 2
       (update_request ''alice'' [] None)) =
     Inl (Wrapf ''update user failed''
            (Wrapf ''update user failed'' (UniqueViolation ''users_username_key''))) \<and>
   UpdateUserRequest.Email (update_request [] ''c@x.com'' None) \<noteq> [] \<and>
   UserRepository_GetByEmail PGX (two_users [Fail ''connection reset''])
       (UpdateUserRequest.Email (update_request [] ''c@x.com'' None)) =
     (Inl (Wrapf ''get user failed'' (DriverError ''connection reset'')), two_users []) \<and>
   Update_email PGX (two_users [Fail ''connection reset'']) 2
       (update_request [] ''c@x.com'' None) bob =
     Update_save PGX (two_users []) (update_request [] ''c@x.com'' None)
       (bob\<lparr>User.Email := ''c@x.com''\<rparr>) \<and>
   fst (Update_email PGX (two_users [Fail ''connection reset'']) 2
       (update_request [] ''c@x.com'' None) bob) =
     Inr (bob\<lparr>User.Email := ''c@x.com'', UpdatedAt := 9\<rparr>)"
proof -
  let ?f = "Fail ''connection reset''"
  let ?e = "Wrapf ''get user failed'' (DriverError ''connection reset'')"
  have g: "UserRepository_GetByID GORM (two_users [Proceed, ?f]) 2 = (Inr bob, two_users [?f])"
    by (simp add: repository_defs sql_defs example_defs)
  have n: "UpdateUserRequest.Username (update_request ''carol'' [] None) \<noteq> []"
    by (simp add: update_request_def)
  have l: "UserRepository_GetByUsername GORM (two_users [?f])
             (UpdateUserRequest.Username (update_request ''carol'' [] None)) =
           (Inl ?e, two_users [])"
    by (simp add: repository_defs sql_defs example_defs)
  have n': "UpdateUserRequest.Email (update_request [] ''c@x.com'' None) \<noteq> []"
    by (simp add: update_request_def)
  have l': "UserRepository_GetByEmail PGX (two_users [?f])
             (UpdateUserRequest.Email (update_request [] ''c@x.com'' None)) =
           (Inl ?e, two_users [])"
    by (simp add: repository_defs sql_defs example_defs)
  have a: "fst (Update_email GORM (two_users []) 2 (update_request ''carol'' [] None)
                  (bob\<lparr>User.Username := ''carol''\<rparr>)) =
           Inr (bob\<lparr>User.Username := ''carol'', UpdatedAt := 9\<rparr>)"
    by (auto simp: service_defs repository_defs sql_defs example_defs Let_def)
  have b: "fst (Update_save PGX (two_users []) (update_request [] ''c@x.com'' None)
                  (bob\<lparr>User.Email := ''c@x.com''\<rparr>)) =
           Inr (bob\<lparr>User.Email := ''c@x.com'', UpdatedAt := 9\<rparr>)"
    by (auto simp: service_defs repository_defs sql_defs example_defs Let_def)
  have c1: "UserService_Update GORM (two_users [Proceed, ?f]) 2
               (update_request ''carol'' [] None) =
             Update_email GORM (two_users []) 2 (update_request ''carol'' [] None)
               (bob\<lparr>User.Username := UpdateUserRequest.Username (update_request ''carol'' [] None)\<rparr>)"
    by (rule Update_lookup_error_ignored [THEN conjunct1, rule_format])
       (rule conjI, rule g, rule conjI, rule n, rule l)
  have c2: "Update_email PGX (two_users [?f]) 2 (update_request [] ''c@x.com'' None) bob =
             Update_save PGX (two_users []) (update_request [] ''c@x.com'' None)
               (bob\<lparr>User.Email := UpdateUserRequest.Email (update_request [] ''c@x.com'' None)\<rparr>)"
    by (rule Update_lookup_error_ignored [THEN conjunct2, rule_format])
       (rule conjI, rule n', rule l')
  have d: "fst (UserService_Update GORM (two_users [Proceed, ?f]) 2
                  (update_request ''alice'' [] None)) =
           Inl (Wrapf ''update user failed''
                  (Wrapf ''update user failed'' (UniqueViolation ''users_username_key'')))"
    by code_simp
  have r: "UpdateUserRequest.Username (update_request ''carol'' [] None) = ''carol''"
    "UpdateUserRequest.Email (update_request [] ''c@x.com'' None) = ''c@x.com''"
    by (simp_all add: update_request_def)
  from c1 c2 g n l n' l' a b d
  show ?thesis by (simp add: r)
qed

subsection \<open>C10: an empty username or email, and any status\<close>

text \<open>
  C10: in \<open>Update\<close> an empty username or email in the request is the same as none and
  changes nothing, so that no update sets the username or the email to the empty string;
  a status is optional, and one that is given, 0 as well, is assigned. For an update that
  succeeds on the fetched record: the username of the result is the fetched one when the
  request's is empty and the request's otherwise, the same for the email, and the status
  is the given one, or the fetched one when none is given.
\<close>

theorem Update_empty_means_unchanged:
  assumes "UserRepository_GetByID s w i = (Inr user, w1)"
    and "UserService_Update s w i req = (Inr user', w')"
  shows "User.Username user' =
           (if UpdateUserRequest.Username req = [] then User.Username user
            else UpdateUserRequest.Username req) \<and>
         User.Email user' =
           (if UpdateUserRequest.Email req = [] then User.Email user
            else UpdateUserRequest.Email req) \<and>
         User.Status user' =
           (case UpdateUserRequest.Status req of None \<Rightarrow> User.Status user | Some st \<Rightarrow> st) \<and>
         (User.Username user' = [] \<longrightarrow> User.Username user = []) \<and>
         (User.Email user' = [] \<longrightarrow> User.Email user = [])"
  using assms
  by (auto simp: UserService_Update_def Update_username_def Update_email_def Update_save_def
      dest!: Update_fields split: if_splits sum.splits prod.splits option.splits)

theorem Update_empty_means_unchanged_witness:
  "UserRepository_GetByID PGX (two_users []) 1 = (Inr alice, two_users []) \<and>
   UserService_Update PGX (two_users []) 1 (update_request [] ''new@x.com'' (Some 0)) =
     (Inr (alice\<lparr>User.Email := ''new@x.com'', User.Status := 0, UpdatedAt := 9\<rparr>),
      \<lparr>users = [alice\<lparr>User.Email := ''new@x.com'', User.Status := 0, UpdatedAt := 9\<rparr>, bob],
       nextval = 3, now = 9, sched = []\<rparr>) \<and>
   User.Username (alice\<lparr>User.Email := ''new@x.com'', User.Status := 0, UpdatedAt := 9\<rparr>) =
     User.Username alice \<and>
   User.Email (alice\<lparr>User.Email := ''new@x.com'', User.Status := 0, UpdatedAt := 9\<rparr>) =
     ''new@x.com'' \<and>
   User.Status (alice\<lparr>User.Email := ''new@x.com'', User.Status := 0, UpdatedAt := 9\<rparr>) = 0"
proof -
  have g: "UserRepository_GetByID PGX (two_users []) 1 = (Inr alice, two_users [])"
    by (simp add: repository_defs sql_defs example_defs)
  have u: "UserService_Update PGX (two_users []) 1 (update_request [] ''new@x.com'' (Some 0)) =
     (Inr (alice\<lparr>User.Email := ''new@x.com'', User.Status := 0, UpdatedAt := 9\<rparr>),
      \<lparr>users = [alice\<lparr>User.Email := ''new@x.com'', User.Status := 0, UpdatedAt := 9\<rparr>, bob],
       nextval = 3, now = 9, sched = []\<rparr>)"
    by (auto simp: service_defs repository_defs sql_defs example_defs Let_def)
  from Update_empty_means_unchanged [OF g u] g u
  show ?thesis by (simp add: update_request_def)
qed

subsection \<open>C8: no password in a response\<close>

text \<open>
  C8: whatever record an operation returns, the response that the caller sees has nothing
  of the password hash nor of any other password material. What is written of a record is
  the same whatever its \<open>Password\<close> is. The responses of the handlers of create, get,
  list and update are the same as on the table where every stored hash is blank, with a
  hash function that returns the blank hash: no response depends on a hash. And the
  response to a create request is the same for another plaintext password on which the
  hash function succeeds or fails alike.
\<close>

theorem responses_without_passwords:
  "User_json (u\<lparr>User.Password := p\<rparr>) = User_json u \<and>
   fst (UserHandler_Create s (redact_hash GenerateFromPassword) (redact_world w) bound) =
     fst (UserHandler_Create s GenerateFromPassword w bound) \<and>
   fst (UserHandler_Get s (redact_world w) parsed) = fst (UserHandler_Get s w parsed) \<and>
   fst (UserHandler_List s (redact_world w) bound') = fst (UserHandler_List s w bound') \<and>
   fst (UserHandler_Update s (redact_world w) parsed bound'') =
     fst (UserHandler_Update s w parsed bound'') \<and>
   (redact_hash GenerateFromPassword p' bcrypt_DefaultCost =
      redact_hash GenerateFromPassword (CreateUserRequest.Password req) bcrypt_DefaultCost \<longrightarrow>
    fst (UserHandler_Create s GenerateFromPassword w
           (Inr (req\<lparr>CreateUserRequest.Password := p'\<rparr>))) =
      fst (UserHandler_Create s GenerateFromPassword w (Inr req)))"
proof -
  have c: "fst (UserHandler_Create s (redact_hash GenerateFromPassword) (redact_world w) bound) =
     fst (UserHandler_Create s GenerateFromPassword w bound)" for bound
  proof (cases bound)
    case (Inl msg)
    then show ?thesis by (simp add: UserHandler_Create_def)
  next
    case (Inr req)
    obtain r w1 where e: "UserService_Create s GenerateFromPassword w req = (r, w1)"
      by (cases "UserService_Create s GenerateFromPassword w req")
    with Inr show ?thesis
      by (cases r) (simp_all add: UserHandler_Create_def Create_service_redact)
  qed
  have g: "fst (UserHandler_Get s (redact_world w) parsed) = fst (UserHandler_Get s w parsed)"
  proof (cases parsed)
    case None
    then show ?thesis by (simp add: UserHandler_Get_def)
  next
    case (Some i)
    obtain r w1 where e: "UserService_GetByID s w i = (r, w1)"
      by (cases "UserService_GetByID s w i")
    with Some show ?thesis
      by (cases r) (simp_all add: UserHandler_Get_def GetByID_service_redact)
  qed
  have l: "fst (UserHandler_List s (redact_world w) bound') = fst (UserHandler_List s w bound')"
  proof (cases bound')
    case (Inl msg)
    then show ?thesis by (simp add: UserHandler_List_def)
  next
    case (Inr params)
    obtain r w1 where e: "UserService_List s w params = (r, w1)"
      by (cases "UserService_List s w params")
    show ?thesis
    proof (cases r)
      case (Inl err)
      with Inr e show ?thesis by (simp add: UserHandler_List_def List_service_redact)
    next
      case r: (Inr p)
      with Inr e show ?thesis
        by (cases p)
           (simp add: UserHandler_List_def List_service_redact redact_page_def Let_def
             SuccessPage_def PageData_json_redact)
    qed
  qed
  have u: "fst (UserHandler_Update s (redact_world w) parsed bound'') =
     fst (UserHandler_Update s w parsed bound'')"
  proof (cases parsed)
    case None
    then show ?thesis by (simp add: UserHandler_Update_def)
  next
    case (Some i)
    show ?thesis
    proof (cases bound'')
      case (Inl msg)
      with Some show ?thesis by (simp add: UserHandler_Update_def)
    next
      case (Inr req)
      obtain r w1 where e: "UserService_Update s w i req = (r, w1)"
        by (cases "UserService_Update s w i req")
      with Some Inr show ?thesis
        by (cases r) (simp_all add: UserHandler_Update_def Update_service_redact)
    qed
  qed
  have j: "User_json (u\<lparr>User.Password := p\<rparr>) = User_json u"
    by (simp add: User_json_def)
  have q: "fst (UserHandler_Create s GenerateFromPassword w
                  (Inr (req\<lparr>CreateUserRequest.Password := p'\<rparr>))) =
           fst (UserHandler_Create s GenerateFromPassword w (Inr req))"
    if same: "redact_hash GenerateFromPassword p' bcrypt_DefaultCost =
      redact_hash GenerateFromPassword (CreateUserRequest.Password req) bcrypt_DefaultCost"
  proof -
    have "UserService_Create s (redact_hash GenerateFromPassword) (redact_world w)
            (req\<lparr>CreateUserRequest.Password := p'\<rparr>) =
          UserService_Create s (redact_hash GenerateFromPassword) (redact_world w) req"
      by (simp add: UserService_Create_def same Let_def
          cong: prod.case_cong sum.case_cong if_cong)
    then have "fst (UserHandler_Create s (redact_hash GenerateFromPassword) (redact_world w)
                      (Inr (req\<lparr>CreateUserRequest.Password := p'\<rparr>))) =
               fst (UserHandler_Create s (redact_hash GenerateFromPassword) (redact_world w)
                      (Inr req))"
      by (simp add: UserHandler_Create_def)
    then show ?thesis by (simp only: c)
  qed
  from j c g l u q show ?thesis by blast
qed

text \<open>
  An instance: carol is created with one password and with another; the response is
  the same, the record without a password.
\<close>

theorem responses_without_passwords_witness:
  "redact_hash a_hash ''another'' bcrypt_DefaultCost =
     redact_hash a_hash
       (CreateUserRequest.Password (create_request ''carol'' ''c@x.com'' ''secret3''))
       bcrypt_DefaultCost \<and>
   fst (UserHandler_Create GORM a_hash (two_users [])
          (Inr ((create_request ''carol'' ''c@x.com'' ''secret3'')
                  \<lparr>CreateUserRequest.Password := ''another''\<rparr>))) =
     fst (UserHandler_Create GORM a_hash (two_users [])
          (Inr (create_request ''carol'' ''c@x.com'' ''secret3''))) \<and>
   fst (UserHandler_Create GORM a_hash (two_users [])
          (Inr (create_request ''carol'' ''c@x.com'' ''secret3''))) =
     (200, \<lparr>Code = 0, Message = ''success'',
             Data = Some (JObject [(''id'', JInt 3), (''created_at'', JTime 9),
                                   (''updated_at'', JTime 9), (''username'', JString ''carol''),
                                   (''email'', JString ''c@x.com''), (''status'', JInt 1)])\<rparr>)"
proof -
  have h: "redact_hash a_hash ''another'' bcrypt_DefaultCost =
     redact_hash a_hash
       (CreateUserRequest.Password (create_request ''carol'' ''c@x.com'' ''secret3''))
       bcrypt_DefaultCost"
    by (simp add: redact_hash_def a_hash_def)
  have r: "fst (UserHandler_Create GORM a_hash (two_users [])
          (Inr (create_request ''carol'' ''c@x.com'' ''secret3''))) =
     (200, \<lparr>Code = 0, Message = ''success'',
             Data = Some (JObject [(''id'', JInt 3), (''created_at'', JTime 9),
                                   (''updated_at'', JTime 9), (''username'', JString ''carol''),
                                   (''email'', JString ''c@x.com''), (''status'', JInt 1)])\<rparr>)"
    by (simp add: UserHandler_Create_def service_defs repository_defs sql_defs example_defs
        Let_def Success_def CodeSuccess_def User_json_def)
  from responses_without_passwords [THEN conjunct2, THEN conjunct2, THEN conjunct2,
      THEN conjunct2, THEN conjunct2, rule_format, OF h, where s = GORM and w = "two_users []"]
    h r
  show ?thesis by simp
qed

end
